theory Spec2Isabelle
  imports Complex_Main "HOL-Library.AList"
begin

section \<open>Data model of the pipeline manager\<close>

text \<open>
  The development follows \<^verbatim>\<open>deeppavlov/pipeline_manager/pipeline_manager_parallel.py\<close>.
  Exceptions are values of \<open>error\<close>; a function that may raise returns \<open>error + 'a\<close>.
\<close>

datatype error =
    ValueError
  | ConfigError
  | KeyError string
  | IndexError
  | ZeroDivisionError
  | FileNotFoundError
  | FileExistsError
  | NotADirectoryError
  | ShutilError
  | TypeError

text \<open>
  The result of an evaluation, \<^verbatim>\<open>results\<close>: a dictionary from split names
  (\<^verbatim>\<open>'train'\<close>, \<^verbatim>\<open>'valid'\<close>, \<^verbatim>\<open>'test'\<close>) to dictionaries from metric names to values.
  Metric values are Python floats; only their order is used, so they are reals here
  (NaN is not modelled).
\<close>

type_synonym metrics = "string \<rightharpoonup> (string \<rightharpoonup> real)"

text \<open>
  A pipeline config is a nested dictionary; the record has the entries the manager reads:
  \<^verbatim>\<open>pipe['dataset_reader']['data_path']\<close>, \<^verbatim>\<open>pipe['train']['metrics']\<close>,
  \<^verbatim>\<open>pipe['chainer']['pipe']\<close> and \<^verbatim>\<open>pipe['train'].get('batch_size', "None")\<close>.
\<close>

record config =
  data_path :: string
  train_metrics :: "string list"
  chainer_pipe :: "string list"
  batch_size :: "int option"

text \<open>
  The dictionary \<^verbatim>\<open>res\<close> that \<^verbatim>\<open>train_pipe\<close> returns: it is built with exactly the
  keys \<^verbatim>\<open>'pipe_conf'\<close>, \<^verbatim>\<open>'results'\<close> and \<^verbatim>\<open>'pipe_time'\<close>.
\<close>

record job_result =
  pipe_conf :: config
  results :: metrics
  pipe_time :: real

text \<open>One record written by \<^verbatim>\<open>logger.get_pipe_log(); logger.write()\<close>.\<close>

record pipe_log =
  pipe_ind :: nat
  log_pipe_conf :: "string list"
  log_dataset :: string
  log_batch_size :: "int option"
  log_pipe_time :: real
  pipe_res :: metrics

record logger =
  log_metrics :: "string list option"
  log_target_metric :: "string option"
  log_full_time :: "real option"
  pipe_logs :: "pipe_log list"

text \<open>
  The attributes of \<^verbatim>\<open>PipelineManager\<close> that planning, scheduling and aggregation use.
  \<open>max_num_workers_u\<close> is the attribute \<^verbatim>\<open>self.max_num_workers_\<close>, the limit the user
  gave; \<open>max_num_workers\<close> is the size of the pool that planning derives from it.
  \<open>saved_configs\<close> collects the calls of \<^verbatim>\<open>save_config\<close>: dataset name, the number \<open>i + 1\<close>
  of the directory \<^verbatim>\<open>pipe_{i+1}\<close>, and the config written to its \<^verbatim>\<open>config.json\<close>.
\<close>

record manager =
  cross_validation :: bool
  k_fold :: nat
  save_best :: bool
  target_metric :: "string option"
  multiprocessing :: bool
  use_all_gpus :: bool
  use_multi_gpus :: "int list option"
  max_num_workers_u :: "int option"
  max_num_workers :: "int option"
  available_gpu :: "int list option"
  mlogger :: logger
  saved_configs :: "(string \<times> nat \<times> config) list"

text \<open>
  An entry of \<^verbatim>\<open>dataset_res\<close>: \<^verbatim>\<open>dict(best_score=-1, best_ind=None)\<close> at first.
  \<^verbatim>\<open>dataset_res\<close> itself is a dictionary in insertion order, an association list.
\<close>

record best =
  best_score :: real
  best_ind :: "nat option"

type_synonym dataset_res = "(string \<times> best) list"

definition init_best :: best where
  "init_best = \<lparr>best_score = - 1, best_ind = None\<rparr>"

section \<open>The aggregator: \<^verbatim>\<open>update_logger\<close>\<close>

text \<open>
  \<^verbatim>\<open>
  if 'test' in results.keys():
      ... results['test'][self.target_metric] ...
  else:
      ... results['valid'][self.target_metric] ...
  \<close>
  The value compared with the stored best score. A missing key raises \<^verbatim>\<open>KeyError\<close>.
\<close>

definition target_score :: "metrics \<Rightarrow> string option \<Rightarrow> error + real" where
  "target_score res tm =
     (case tm of
        None \<Rightarrow> Inl (KeyError ''None'')
      | Some t \<Rightarrow>
          (case res ''test'' of
             Some m \<Rightarrow> (case m t of None \<Rightarrow> Inl (KeyError t) | Some v \<Rightarrow> Inr v)
           | None \<Rightarrow>
               (case res ''valid'' of
                  None \<Rightarrow> Inl (KeyError ''valid'')
                | Some m \<Rightarrow> (case m t of None \<Rightarrow> Inl (KeyError t) | Some v \<Rightarrow> Inr v))))"

text \<open>
  \<^verbatim>\<open>
  if i == 0:
      self.logger.log['experiment_info']['metrics'] = copy(pipe['train']['metrics'])
      if self.target_metric is None:
          self.target_metric = pipe['train']['metrics'][0]
      self.logger.log['experiment_info']['target_metric'] = self.target_metric
  \<close>
\<close>

definition fix_target :: "nat \<Rightarrow> config \<Rightarrow> manager \<Rightarrow> error + manager" where
  "fix_target i pipe self =
     (if i = 0 then
        (case target_metric self of
           None \<Rightarrow>
             (case train_metrics pipe of
                [] \<Rightarrow> Inl IndexError
              | m # _ \<Rightarrow>
                  Inr (self\<lparr>target_metric := Some m,
                            mlogger := (mlogger self)\<lparr>log_metrics := Some (train_metrics pipe),
                                                      log_target_metric := Some m\<rparr>\<rparr>))
         | Some t \<Rightarrow>
             Inr (self\<lparr>mlogger := (mlogger self)\<lparr>log_metrics := Some (train_metrics pipe),
                                                 log_target_metric := Some t\<rparr>\<rparr>))
      else Inr self)"

text \<open>
  The logger calls of one iteration, and \<^verbatim>\<open>save_config(pipe, dataset_name, i)\<close> unless
  cross validation is on.
\<close>

definition write_log :: "nat \<Rightarrow> job_result \<Rightarrow> manager \<Rightarrow> manager" where
  "write_log i res self =
     (let pipe = pipe_conf res;
          entry = \<lparr>pipe_ind = i + 1, log_pipe_conf = chainer_pipe pipe,
                   log_dataset = data_path pipe, log_batch_size = batch_size pipe,
                   log_pipe_time = pipe_time res, pipe_res = results res\<rparr>;
          self1 = self\<lparr>mlogger := (mlogger self)\<lparr>pipe_logs := pipe_logs (mlogger self) @ [entry]\<rparr>\<rparr>
      in if \<not> cross_validation self1
         then self1\<lparr>saved_configs := saved_configs self1 @ [(data_path pipe, i + 1, pipe)]\<rparr>
         else self1)"

text \<open>
  \<^verbatim>\<open>
  if dataset_name not in dataset_res.keys():
      dataset_res[dataset_name] = dict(best_score=-1, best_ind=None)
  if <score> > dataset_res[dataset_name]["best_score"]:
      dataset_res[dataset_name]["best_score"] = <score>
      dataset_res[dataset_name]["best_ind"] = i + 1
  \<close>
\<close>

definition init_entry :: "string \<Rightarrow> dataset_res \<Rightarrow> dataset_res" where
  "init_entry name dr =
     (if name \<notin> fst ` set dr then AList.update name init_best dr else dr)"

definition upd_best :: "nat \<Rightarrow> string \<Rightarrow> real \<Rightarrow> dataset_res \<Rightarrow> dataset_res" where
  "upd_best i name v dr =
     (case map_of dr name of
        None \<Rightarrow> dr
      | Some b \<Rightarrow>
          if v > best_score b
          then AList.update name \<lparr>best_score = v, best_ind = Some (i + 1)\<rparr> dr
          else dr)"

text \<open>One iteration of the loop of \<^verbatim>\<open>update_logger\<close>, for the \<open>i\<close>-th result received.\<close>

definition ingest :: "nat \<Rightarrow> job_result \<Rightarrow> manager \<times> dataset_res \<Rightarrow> error + manager \<times> dataset_res" where
  "ingest i res s =
     (case fix_target i (pipe_conf res) (fst s) of
        Inl e \<Rightarrow> Inl e
      | Inr self1 \<Rightarrow>
          (let self2 = write_log i res self1;
               name = data_path (pipe_conf res)
           in if save_best self2 then
                (case target_score (results res) (target_metric self2) of
                   Inl e \<Rightarrow> Inl e
                 | Inr v \<Rightarrow> Inr (self2, upd_best i name v (init_entry name (snd s))))
              else Inr (self2, snd s)))"

text \<open>\<^verbatim>\<open>for i, res in enumerate(res_list)\<close>: the loop, from index \<open>i\<close> on.\<close>

fun update_loop :: "nat \<Rightarrow> job_result list \<Rightarrow> manager \<times> dataset_res \<Rightarrow> error + manager \<times> dataset_res" where
  "update_loop i [] s = Inr s"
| "update_loop i (res # rest) s =
     (case ingest i res s of
        Inl e \<Rightarrow> Inl e
      | Inr s' \<Rightarrow> update_loop (Suc i) rest s')"

definition update_logger :: "manager \<Rightarrow> job_result list \<Rightarrow> error + manager \<times> dataset_res" where
  "update_logger self res_list = update_loop 0 res_list (self, [])"

section \<open>Resource planning: \<^verbatim>\<open>prepare_multiprocess\<close>\<close>

text \<open>
  What the manager asks of the machine and of the functions it imports from other
  modules: \<^verbatim>\<open>cpu_count()\<close>, \<^verbatim>\<open>get_num_gpu()\<close>, \<^verbatim>\<open>get_available_gpus(num_gpus=...)\<close>
  (the argument is \<open>None\<close> when the call passes none), \<^verbatim>\<open>check_gpu_available(ind)\<close>,
  \<^verbatim>\<open>train_evaluate_model_from_config\<close>, \<^verbatim>\<open>calc_cv_score\<close>, and the two readings of
  \<^verbatim>\<open>time()\<close> in the worker that runs the job submitted at a given index.
\<close>

record env =
  cpu_count :: int
  get_num_gpu :: int
  get_available_gpus :: "int option \<Rightarrow> int list"
  check_gpu_available :: "int \<Rightarrow> bool"
  train_evaluate :: "config \<Rightarrow> metrics"
  calc_cv_score :: "config \<Rightarrow> nat \<Rightarrow> (string \<rightharpoonup> real)"
  job_clock :: "nat \<Rightarrow> real \<times> real"

text \<open>
  \<^verbatim>\<open>int(cpu_count() * 0.7)\<close> is computed in binary64. The double nearest to 0.7 is
  \<open>m07 / 2^53\<close>; the product with an integer below \<open>2^53\<close> is the exact product rounded to
  53 significant bits, ties to even, and \<^verbatim>\<open>int\<close> truncates it. \<open>int_mul_07 n\<close> is that
  value for a count \<open>n \<ge> 0\<close>.
\<close>

definition m07 :: int where
  "m07 = 6305039478318694"

function bit_length :: "int \<Rightarrow> nat" where
  "bit_length n = (if n \<le> 0 then 0 else Suc (bit_length (n div 2)))"
  by pat_completeness auto
termination
  by (relation "measure nat") auto

declare bit_length.simps [simp del]

definition round_half_even :: "int \<Rightarrow> nat \<Rightarrow> int" where
  "round_half_even p e =
     (if e = 0 then p
      else (let q = p div 2 ^ e; r = p mod 2 ^ e; h = 2 ^ (e - 1)
            in if r > h \<or> (r = h \<and> odd q) then q + 1 else q))"

definition int_mul_07 :: "int \<Rightarrow> int" where
  "int_mul_07 n =
     (let p = n * m07; e = bit_length p - 53
      in (round_half_even p e * 2 ^ e) div 2 ^ 53)"

text \<open>Python's truth value of an optional list (\<^verbatim>\<open>if self.use_multi_gpus:\<close>).\<close>

definition truthy :: "'a list option \<Rightarrow> bool" where
  "truthy l = (case l of None \<Rightarrow> False | Some xs \<Rightarrow> xs \<noteq> [])"

text \<open>The slice \<^verbatim>\<open>xs[0:w]\<close>; a negative \<open>w\<close> counts from the end.\<close>

definition slice0 :: "'a list \<Rightarrow> int \<Rightarrow> 'a list" where
  "slice0 xs w = (if w < 0 then take (nat (int (length xs) + w)) xs else take (nat w) xs)"

text \<open>
  \<^verbatim>\<open>prepare_multiprocess\<close>, branch by branch; the printed warnings are left out.
  In the all-GPU branch with a worker limit not above the GPU count, the source assigns
  \<^verbatim>\<open>self.available_gpu\<close> only, so \<^verbatim>\<open>self.max_num_workers\<close> keeps the \<open>None\<close> of the constructor.
\<close>

definition clamp_to_cpu :: "env \<Rightarrow> manager \<Rightarrow> manager" where
  "clamp_to_cpu ev self =
     (case max_num_workers_u self of
        None \<Rightarrow> self
      | Some w \<Rightarrow> if w > cpu_count ev
                  then self\<lparr>max_num_workers_u := Some (cpu_count ev)\<rparr> else self)"

definition plan_all_gpus :: "env \<Rightarrow> manager \<Rightarrow> manager" where
  "plan_all_gpus ev self =
     (case max_num_workers_u self of
        None \<Rightarrow>
          (let avail = get_available_gpus ev None
           in if int_mul_07 (cpu_count ev) > int (length avail)
              then self\<lparr>available_gpu := Some avail, max_num_workers := Some (int (length avail))\<rparr>
              else self\<lparr>available_gpu := Some avail,
                        max_num_workers := Some (int_mul_07 (cpu_count ev))\<rparr>)
      | Some w \<Rightarrow>
          if w > get_num_gpu ev
          then self\<lparr>max_num_workers := Some (get_num_gpu ev),
                    available_gpu := Some (get_available_gpus ev None)\<rparr>
          else self\<lparr>available_gpu := Some (get_available_gpus ev (Some w))\<rparr>)"

definition plan_multi_gpus :: "env \<Rightarrow> int list \<Rightarrow> manager \<Rightarrow> manager" where
  "plan_multi_gpus ev inds self =
     (let avail = filter (check_gpu_available ev) inds
      in case max_num_workers_u self of
           None \<Rightarrow> self\<lparr>available_gpu := Some avail, max_num_workers := Some (int (length avail))\<rparr>
         | Some w \<Rightarrow>
             if w = 0 then
               self\<lparr>available_gpu := Some avail, max_num_workers := Some (int (length avail))\<rparr>
             else if w > int (length avail) then
               self\<lparr>available_gpu := Some avail, max_num_workers := Some (int (length avail))\<rparr>
             else
               self\<lparr>max_num_workers := Some w, available_gpu := Some (slice0 avail w)\<rparr>)"

definition prepare_multiprocess :: "env \<Rightarrow> manager \<Rightarrow> error + manager" where
  "prepare_multiprocess ev self0 =
     (let self = clamp_to_cpu ev self0
      in if use_all_gpus self then
           (if truthy (use_multi_gpus self) then Inl ValueError
            else Inr (plan_all_gpus ev self))
         else if truthy (use_multi_gpus self) then
           (case use_multi_gpus self of
              Some inds \<Rightarrow> Inr (plan_multi_gpus ev inds self)
            | None \<Rightarrow> Inr self)
         else Inr (self\<lparr>max_num_workers := max_num_workers_u self\<rparr>))"

text \<open>
  The constructor, for \<^verbatim>\<open>do_test=False\<close>: it stores its arguments, sets
  \<^verbatim>\<open>self.max_num_workers = None\<close> and \<^verbatim>\<open>self.available_gpu = None\<close>, and plans only
  \<^verbatim>\<open>if self.multiprocessing\<close>.
\<close>

record init_args =
  arg_cross_val :: bool
  arg_k_fold :: nat
  arg_target_metric :: "string option"
  arg_save_best :: bool
  arg_multiprocessing :: bool
  arg_max_num_workers :: "int option"
  arg_use_all_gpus :: bool
  arg_use_multi_gpus :: "int list option"

definition init :: "env \<Rightarrow> init_args \<Rightarrow> error + manager" where
  "init ev a =
     (let self = \<lparr>cross_validation = arg_cross_val a, k_fold = arg_k_fold a,
                  save_best = arg_save_best a, target_metric = arg_target_metric a,
                  multiprocessing = arg_multiprocessing a,
                  use_all_gpus = arg_use_all_gpus a, use_multi_gpus = arg_use_multi_gpus a,
                  max_num_workers_u = arg_max_num_workers a, max_num_workers = None,
                  available_gpu = None,
                  mlogger = \<lparr>log_metrics = None, log_target_metric = None,
                             log_full_time = None, pipe_logs = []\<rparr>,
                  saved_configs = []\<rparr>
      in if multiprocessing self then prepare_multiprocess ev self else Inr self)"

section \<open>Workers and scheduling\<close>

text \<open>\<^verbatim>\<open>str\<close> of an integer, in decimal.\<close>

fun str_nat :: "nat \<Rightarrow> string" where
  "str_nat n =
     (if n < 10 then [''0123456789'' ! n]
      else str_nat (n div 10) @ [''0123456789'' ! (n mod 10)])"

declare str_nat.simps [simp del]

definition str_int :: "int \<Rightarrow> string" where
  "str_int i = (if i < 0 then CHR ''-'' # str_nat (nat (- i)) else str_nat (nat i))"

text \<open>
  The argument tuple of \<^verbatim>\<open>train_pipe\<close>:
  \<^verbatim>\<open>(pipe_config, cross_validation, k_fold, gpu=False, gpu_ind=None)\<close>.
\<close>

record job_args =
  pipe_config :: config
  arg_cross_validation :: bool
  arg_folds :: nat
  gpu :: bool
  gpu_ind :: "int option"

text \<open>
  What a worker leaves: the value it gave \<^verbatim>\<open>os.environ['CUDA_VISIBLE_DEVICES']\<close> before
  the pipeline started, and the dictionary it returns.
\<close>

record worker_out =
  cuda_visible_devices :: string
  res :: job_result

text \<open>
  \<^verbatim>\<open>
  if gpu:
      if not isinstance(gpu_ind, int):
          raise ConfigError("Check your multiprocess config idiot!")
      else:
          os.environ['CUDA_VISIBLE_DEVICES'] = str(gpu_ind)
  else:
      os.environ['CUDA_VISIBLE_DEVICES'] = ''
  pipe_start = time()
  res = dict(pipe_conf=deepcopy(pipe_config))
  if cross_validation:
      cv_score = calc_cv_score(pipe_config, n_folds=k_fold)
      results = {"test": cv_score}
  else:
      results = train_evaluate_model_from_config(pipe_config, to_train=True, to_validate=True)
  res['results'] = results
  res['pipe_time'] = time() - pipe_start
  return res
  \<close>
  \<open>run_pipe\<close> is the part from \<^verbatim>\<open>pipe_start = time()\<close> on; \<open>clock\<close> is the pair of the two
  readings of \<^verbatim>\<open>time()\<close>.
\<close>

definition run_pipe :: "env \<Rightarrow> real \<times> real \<Rightarrow> job_args \<Rightarrow> job_result" where
  "run_pipe ev clock a =
     \<lparr>pipe_conf = pipe_config a,
      results = (if arg_cross_validation a
                 then [''test'' \<mapsto> calc_cv_score ev (pipe_config a) (arg_folds a)]
                 else train_evaluate ev (pipe_config a)),
      pipe_time = snd clock - fst clock\<rparr>"

definition train_pipe :: "env \<Rightarrow> real \<times> real \<Rightarrow> job_args \<Rightarrow> error + worker_out" where
  "train_pipe ev clock a =
     (if gpu a then
        (case gpu_ind a of
           None \<Rightarrow> Inl ConfigError
         | Some g \<Rightarrow> Inr \<lparr>cuda_visible_devices = str_int g, res = run_pipe ev clock a\<rparr>)
      else Inr \<lparr>cuda_visible_devices = [], res = run_pipe ev clock a\<rparr>)"

text \<open>
  \<^verbatim>\<open>
  for i, pipe_conf in enumerate(self.pipeline_generator()):
      j = i - (i // len(self.available_gpu)) * len(self.available_gpu)
      yield (deepcopy(pipe_conf), self.cross_validation, self.k_fold, True, j)
  \<close>
  The generator is consumed whole by a list comprehension; \<open>confs\<close> is the sequence of
  configs that \<^verbatim>\<open>self.pipeline_generator()\<close> yields, in submission order.
\<close>

definition gpu_gen :: "manager \<Rightarrow> config list \<Rightarrow> error + job_args list" where
  "gpu_gen self confs =
     (case available_gpu self of
        None \<Rightarrow> Inl TypeError
      | Some avail \<Rightarrow>
          if confs \<noteq> [] \<and> length avail = 0 then Inl ZeroDivisionError
          else Inr (map (\<lambda>(i, c).
                      \<lparr>pipe_config = c, arg_cross_validation = cross_validation self,
                       arg_folds = k_fold self, gpu = True,
                       gpu_ind = Some (int i - (int i div int (length avail)) * int (length avail))\<rparr>)
                    (enumerate 0 confs)))"

text \<open>
  \<^verbatim>\<open>configs = [(deepcopy(x), self.cross_validation, self.k_fold) for x in ...]\<close>, the
  arguments when \<^verbatim>\<open>self.available_gpu is None\<close>.
\<close>

definition cpu_configs :: "manager \<Rightarrow> config list \<Rightarrow> job_args list" where
  "cpu_configs self confs =
     map (\<lambda>c. \<lparr>pipe_config = c, arg_cross_validation = cross_validation self,
               arg_folds = k_fold self, gpu = False, gpu_ind = None\<rparr>) confs"

text \<open>\<^verbatim>\<open>Pool(self.max_num_workers)\<close>: the number of worker processes.\<close>

definition pool_size :: "env \<Rightarrow> int option \<Rightarrow> error + int" where
  "pool_size ev p =
     (case p of
        None \<Rightarrow> Inr (cpu_count ev)
      | Some n \<Rightarrow> if n < 1 then Inl ValueError else Inr n)"

fun collect :: "(error + 'a) list \<Rightarrow> error + 'a list" where
  "collect [] = Inr []"
| "collect (x # xs) =
     (case x of
        Inl e \<Rightarrow> Inl e
      | Inr v \<Rightarrow> (case collect xs of Inl e \<Rightarrow> Inl e | Inr vs \<Rightarrow> Inr (v # vs)))"

text \<open>
  \<^verbatim>\<open>workers.imap_unordered(self.train_pipe, args)\<close> yields the workers' return values in
  the order in which the jobs complete. \<open>order\<close> is that order: a permutation of the
  submission indices \<open>[0..<length args]\<close>.
\<close>

definition imap_unordered :: "env \<Rightarrow> job_args list \<Rightarrow> nat list \<Rightarrow> error + worker_out list" where
  "imap_unordered ev args order =
     collect (map (\<lambda>k. train_pipe ev (job_clock ev k) (args ! k)) order)"

text \<open>
  The first lines of \<^verbatim>\<open>run\<close>, up to the call of \<^verbatim>\<open>update_logger\<close>: the pool, the
  argument list, and what the workers leave, in completion order. \<^verbatim>\<open>pipes_results\<close> is
  the sequence of the dictionaries they return.
\<close>

definition pool_outputs :: "env \<Rightarrow> manager \<Rightarrow> config list \<Rightarrow> nat list \<Rightarrow> error + worker_out list" where
  "pool_outputs ev self confs order =
     (case pool_size ev (max_num_workers self) of
        Inl e \<Rightarrow> Inl e
      | Inr _ \<Rightarrow>
          (case available_gpu self of
             None \<Rightarrow> imap_unordered ev (cpu_configs self confs) order
           | Some _ \<Rightarrow>
               (case gpu_gen self confs of
                  Inl e \<Rightarrow> Inl e
                | Inr args \<Rightarrow> imap_unordered ev args order)))"

definition pipes_results :: "env \<Rightarrow> manager \<Rightarrow> config list \<Rightarrow> nat list \<Rightarrow> error + job_result list" where
  "pipes_results ev self confs order =
     (case pool_outputs ev self confs order of
        Inl e \<Rightarrow> Inl e
      | Inr outs \<Rightarrow> Inr (map res outs))"

section \<open>Retention of the best pipeline\<close>

text \<open>
  The part of the file system that retention touches is the directory \<^verbatim>\<open>self.save_path\<close>.
  A directory is the list of its entries, in the order \<^verbatim>\<open>os.listdir\<close> reports them, with
  distinct names. A dataset name is taken to be a single path component, so that
  \<^verbatim>\<open>join(self.save_path, name)\<close> is an entry of \<^verbatim>\<open>self.save_path\<close>.
\<close>

datatype node = File string | Dir "(string \<times> node) list"

type_synonym dir = "(string \<times> node) list"

definition isdir :: "dir \<Rightarrow> string \<Rightarrow> bool" where
  "isdir d f = (case map_of d f of Some (Dir _) \<Rightarrow> True | _ \<Rightarrow> False)"

definition isfile :: "dir \<Rightarrow> string \<Rightarrow> bool" where
  "isfile d f = (case map_of d f of Some (File _) \<Rightarrow> True | _ \<Rightarrow> False)"

definition startswith :: "string \<Rightarrow> string \<Rightarrow> bool" where
  "startswith s p = (take (length p) s = p)"

text \<open>\<^verbatim>\<open>'pipe_{}'.format(dataset_res[name]["best_ind"])\<close>\<close>

definition pipe_name :: "nat option \<Rightarrow> string" where
  "pipe_name k = ''pipe_'' @ (case k of None \<Rightarrow> ''None'' | Some n \<Rightarrow> str_nat n)"

text \<open>
  \<^verbatim>\<open>shutil.move(join(source, f), dest1)\<close> with \<^verbatim>\<open>dest1\<close> a directory: it raises
  \<^verbatim>\<open>shutil.Error\<close> when \<^verbatim>\<open>dest1\<close> has an entry \<open>f\<close> already, and renames otherwise.
  The state is the pair of the entries of \<^verbatim>\<open>source\<close> and of \<^verbatim>\<open>dest1\<close>.
\<close>

definition shutil_move :: "string \<Rightarrow> dir \<times> dir \<Rightarrow> error + dir \<times> dir" where
  "shutil_move f s =
     (if f \<in> fst ` set (snd s) then Inl ShutilError
      else (case map_of (fst s) f of
              None \<Rightarrow> Inl FileNotFoundError
            | Some n \<Rightarrow> Inr (AList.delete f (fst s), snd s @ [(f, n)])))"

text \<open>
  \<^verbatim>\<open>
  for f in files:
      if not f.startswith('pipe') and not os.path.isfile(join(dest1, f)):
          shutil.move(join(source, f), dest1)
      elif f == 'pipe_{}'.format(dataset_res[name]["best_ind"]):
          if os.path.isdir(join(dest1, f)):
              rmtree(join(dest1, f))
              shutil.move(join(source, f), dest1)
          else:
              shutil.move(join(source, f), dest1)
  \<close>
  The loop returns the two directories as it leaves them, and the exception if one was
  raised.
\<close>

fun move_files :: "string \<Rightarrow> string list \<Rightarrow> dir \<times> dir \<Rightarrow> (dir \<times> dir) \<times> error option" where
  "move_files bestf [] s = (s, None)"
| "move_files bestf (f # files) s =
     (if \<not> startswith f ''pipe'' \<and> \<not> isfile (snd s) f then
        (case shutil_move f s of
           Inl e \<Rightarrow> (s, Some e)
         | Inr s' \<Rightarrow> move_files bestf files s')
      else if f = bestf then
        (if isdir (snd s) f then
           (case shutil_move f (fst s, AList.delete f (snd s)) of
              Inl e \<Rightarrow> ((fst s, AList.delete f (snd s)), Some e)
            | Inr s' \<Rightarrow> move_files bestf files s')
         else
           (case shutil_move f s of
              Inl e \<Rightarrow> (s, Some e)
            | Inr s' \<Rightarrow> move_files bestf files s'))
      else move_files bestf files s)"

text \<open>
  The body of \<^verbatim>\<open>for name in dataset_res.keys()\<close> in \<^verbatim>\<open>run\<close>, on the entries \<open>fs\<close> of
  \<^verbatim>\<open>self.save_path\<close>: \<^verbatim>\<open>os.makedirs(dest1)\<close> unless \<^verbatim>\<open>dest1\<close> is a directory,
  \<^verbatim>\<open>os.listdir(source)\<close>, the loop over the files, and \<^verbatim>\<open>rmtree(join(self.save_path, name))\<close>.
\<close>

definition best_dir :: "string \<Rightarrow> string" where
  "best_dir name = name @ ''_best_pipe''"

definition makedirs_dest :: "dir \<Rightarrow> string \<Rightarrow> error + dir" where
  "makedirs_dest fs dest1 =
     (if \<not> isdir fs dest1 then
        (if dest1 \<in> fst ` set fs then Inl FileExistsError else Inr (fs @ [(dest1, Dir [])]))
      else Inr fs)"

definition retain_dataset :: "dir \<Rightarrow> string \<Rightarrow> nat option \<Rightarrow> dir \<times> error option" where
  "retain_dataset fs name k =
     (case makedirs_dest fs (best_dir name) of
        Inl e \<Rightarrow> (fs, Some e)
      | Inr fs1 \<Rightarrow>
          (case map_of fs1 name of
             None \<Rightarrow> (fs1, Some FileNotFoundError)
           | Some (File _) \<Rightarrow> (fs1, Some NotADirectoryError)
           | Some (Dir cs) \<Rightarrow>
               (case map_of fs1 (best_dir name) of
                  Some (Dir ds) \<Rightarrow>
                    (case move_files (pipe_name k) (map fst cs) (cs, ds) of
                       ((cs', ds'), Some e) \<Rightarrow>
                         (AList.update (best_dir name) (Dir ds') (AList.update name (Dir cs') fs1), Some e)
                     | ((cs', ds'), None) \<Rightarrow>
                         (AList.delete name (AList.update (best_dir name) (Dir ds') fs1), None))
                | _ \<Rightarrow> (fs1, Some NotADirectoryError))))"

fun retain :: "dir \<Rightarrow> dataset_res \<Rightarrow> dir \<times> error option" where
  "retain fs [] = (fs, None)"
| "retain fs ((name, b) # rest) =
     (case retain_dataset fs name (best_ind b) of
        (fs', Some e) \<Rightarrow> (fs', Some e)
      | (fs', None) \<Rightarrow> retain fs' rest)"

section \<open>The experiment: \<^verbatim>\<open>run\<close>\<close>

text \<open>
  \<^verbatim>\<open>run\<close> schedules the jobs, hands the results to \<^verbatim>\<open>update_logger\<close> in the order of
  their completion, and retains the best pipelines if \<^verbatim>\<open>self.save_best\<close>. \<open>fs\<close> is the
  content of \<^verbatim>\<open>self.save_path\<close> when the workers are done; the result is the content
  that \<^verbatim>\<open>run\<close> leaves, and the exception if one was raised. Saving the log and plotting
  are left out.
\<close>

definition run :: "env \<Rightarrow> manager \<Rightarrow> config list \<Rightarrow> nat list \<Rightarrow> dir \<Rightarrow> dir \<times> (error + manager)" where
  "run ev self confs order fs =
     (case pipes_results ev self confs order of
        Inl e \<Rightarrow> (fs, Inl e)
      | Inr rs \<Rightarrow>
          (case update_logger self rs of
             Inl e \<Rightarrow> (fs, Inl e)
           | Inr (self', dataset_res) \<Rightarrow>
               if save_best self' then
                 (case retain fs dataset_res of
                    (fs', Some e) \<Rightarrow> (fs', Inl e)
                  | (fs', None) \<Rightarrow> (fs', Inr self'))
               else (fs, Inr self')))"

text \<open>Constructing the manager and running it: \<^verbatim>\<open>PipelineManager(...).run()\<close>.\<close>

definition new_and_run :: "env \<Rightarrow> init_args \<Rightarrow> config list \<Rightarrow> nat list \<Rightarrow> dir \<Rightarrow> dir \<times> (error + manager)" where
  "new_and_run ev a confs order fs =
     (case init ev a of
        Inl e \<Rightarrow> (fs, Inl e)
      | Inr self \<Rightarrow> run ev self confs order fs)"


section \<open>The best entry of one dataset, as a fold\<close>

text \<open>
  What \<^verbatim>\<open>update_logger\<close> does to the entry of the dataset \<open>name\<close>, given the pairs of
  dataset name and target score of the results from position \<open>i\<close> on.
\<close>

fun track :: "nat \<Rightarrow> string \<Rightarrow> (string \<times> real) list \<Rightarrow> best option \<Rightarrow> best option" where
  "track i name [] b = b"
| "track i name ((n, v) # xs) b =
     track (Suc i) name xs
       (if n = name then
          (let b0 = (case b of None \<Rightarrow> init_best | Some b1 \<Rightarrow> b1)
           in Some (if v > best_score b0 then \<lparr>best_score = v, best_ind = Some (i + 1)\<rparr> else b0))
        else b)"

section \<open>Example inputs\<close>

text \<open>
  A machine with two CPUs and two idle GPUs, three pipelines on the dataset \<open>A\<close> whose
  test accuracy is 0.5, 0.8 and 0.3 in submission order, and a manager for them.
\<close>

definition conf_A :: "string \<Rightarrow> config" where
  "conf_A p = \<lparr>data_path = ''A'', train_metrics = [''acc''], chainer_pipe = [p], batch_size = None\<rparr>"

definition result_A :: "string \<Rightarrow> real \<Rightarrow> job_result" where
  "result_A p v = \<lparr>pipe_conf = conf_A p, results = [''test'' \<mapsto> [''acc'' \<mapsto> v]], pipe_time = 1\<rparr>"

definition example_scores :: "config \<Rightarrow> metrics" where
  "example_scores c =
     [''test'' \<mapsto> [''acc'' \<mapsto> (if chainer_pipe c = [''p0''] then 0.5
                                 else if chainer_pipe c = [''p1''] then 0.8 else 0.3)]]"

definition example_env :: env where
  "example_env =
     \<lparr>cpu_count = 2, get_num_gpu = 2, get_available_gpus = (\<lambda>_. [0, 1]),
      check_gpu_available = (\<lambda>_. True), train_evaluate = example_scores,
      calc_cv_score = (\<lambda>_ _. Map.empty), job_clock = (\<lambda>_. (0, 1))\<rparr>"

definition example_confs :: "config list" where
  "example_confs = [conf_A ''p0'', conf_A ''p1'', conf_A ''p2'']"

definition new_logger :: logger where
  "new_logger = \<lparr>log_metrics = None, log_target_metric = None, log_full_time = None, pipe_logs = []\<rparr>"

definition example_args :: init_args where
  "example_args =
     \<lparr>arg_cross_val = False, arg_k_fold = 5, arg_target_metric = None, arg_save_best = True,
      arg_multiprocessing = True, arg_max_num_workers = Some 2, arg_use_all_gpus = False,
      arg_use_multi_gpus = None\<rparr>"

definition example_manager :: manager where
  "example_manager =
     \<lparr>cross_validation = False, k_fold = 5, save_best = True, target_metric = None,
      multiprocessing = True, use_all_gpus = False, use_multi_gpus = None,
      max_num_workers_u = Some 2, max_num_workers = Some 2, available_gpu = None,
      mlogger = new_logger, saved_configs = []\<rparr>"

text \<open>The same manager once \<^verbatim>\<open>update_logger\<close> has fixed the target metric \<open>acc\<close>.\<close>

definition example_manager_acc :: manager where
  "example_manager_acc = example_manager\<lparr>target_metric := Some ''acc''\<rparr>"

text \<open>The explicit GPU list \<open>[2, 3]\<close>, both idle, and the manager that planning makes of it.\<close>

definition gpu_list_args :: init_args where
  "gpu_list_args = example_args\<lparr>arg_max_num_workers := None, arg_use_multi_gpus := Some [2, 3]\<rparr>"

definition gpu_list_manager :: manager where
  "gpu_list_manager =
     example_manager\<lparr>use_multi_gpus := Some [2, 3], max_num_workers_u := None,
                     max_num_workers := Some 2, available_gpu := Some [2, 3]\<rparr>"


text \<open>Both GPU modes at once, with and without \<^verbatim>\<open>multiprocessing\<close>.\<close>

definition both_modes_args :: init_args where
  "both_modes_args = example_args\<lparr>arg_use_all_gpus := True, arg_use_multi_gpus := Some [0]\<rparr>"

definition both_modes_unplanned :: manager where
  "both_modes_unplanned =
     example_manager\<lparr>multiprocessing := False, use_all_gpus := True, use_multi_gpus := Some [0],
                     max_num_workers := None\<rparr>"

text \<open>
  Two results of a dataset \<open>B\<close> whose pipelines declare the metrics \<open>acc\<close> and \<open>f1\<close>: one
  with a test and a validation split, one with a validation split only.
\<close>

definition conf_B :: config where
  "conf_B = \<lparr>data_path = ''B'', train_metrics = [''acc'', ''f1''], chainer_pipe = [''q''],
             batch_size = None\<rparr>"

definition result_both :: job_result where
  "result_both =
     \<lparr>pipe_conf = conf_B,
      results = [''test'' \<mapsto> [''acc'' \<mapsto> 0.3, ''f1'' \<mapsto> 0.7],
                 ''valid'' \<mapsto> [''acc'' \<mapsto> 0.9, ''f1'' \<mapsto> 0.1]],
      pipe_time = 1\<rparr>"

definition result_valid_only :: job_result where
  "result_valid_only =
     \<lparr>pipe_conf = conf_B,
      results = [''valid'' \<mapsto> [''acc'' \<mapsto> 0.5, ''f1'' \<mapsto> 0.2]],
      pipe_time = 1\<rparr>"

text \<open>
  A checkpoint directory: the working directory of \<open>A\<close> with a vocabulary and the
  checkpoints of three pipelines, and the same after an earlier run left a best directory.
\<close>

definition example_work :: dir where
  "example_work =
     [(''vocab.dict'', File ''v1''),
      (''pipe_1'', Dir [(''config.json'', File ''c1'')]),
      (''pipe_2'', Dir [(''config.json'', File ''c2'')]),
      (''pipe_3'', Dir [(''config.json'', File ''c3'')])]"

definition example_fs :: dir where
  "example_fs = [(''A'', Dir example_work)]"

definition example_old_best :: dir where
  "example_old_best = [(''vocab.dict'', File ''v0''), (''pipe_2'', Dir [])]"

definition example_fs_rerun :: dir where
  "example_fs_rerun = [(''A'', Dir example_work), (''A_best_pipe'', Dir example_old_best)]"

definition example_fs_done :: dir where
  "example_fs_done =
     [(''A_best_pipe'', Dir [(''vocab.dict'', File ''v1''),
                            (''pipe_2'', Dir [(''config.json'', File ''c2'')])])]"

section \<open>Properties of the aggregator\<close>

subsection \<open>The loop and the fold\<close>


lemma map_of_init_entry:
  "map_of (init_entry name dr) n =
     (if n = name \<and> map_of dr name = None then Some init_best else map_of dr n)"
  by (auto simp: init_entry_def update_conv' map_of_eq_None_iff)

lemma map_of_upd_best:
  "map_of (upd_best i name v dr) n =
     (case map_of dr name of
        None \<Rightarrow> map_of dr n
      | Some b \<Rightarrow> if n = name \<and> v > best_score b
                  then Some \<lparr>best_score = v, best_ind = Some (i + 1)\<rparr> else map_of dr n)"
  by (auto simp: upd_best_def update_conv' split: option.splits)

lemma fix_target_save_best: "fix_target i p m = Inr m' \<Longrightarrow> save_best m' = save_best m"
  by (auto simp: fix_target_def split: if_splits option.splits list.splits)

lemma fix_target_nonzero: "0 < i \<Longrightarrow> fix_target i p m = Inr m"
  by (simp add: fix_target_def)

lemma write_log_fields [simp]:
  "target_metric (write_log i r m) = target_metric m"
  "save_best (write_log i r m) = save_best m"
  by (simp_all add: write_log_def Let_def)

lemma ingest_save_best: "ingest i r (m, dr) = Inr (m', dr') \<Longrightarrow> save_best m' = save_best m"
  by (auto simp: ingest_def Let_def dest: fix_target_save_best split: sum.splits if_splits)

lemma ingest_target_nonzero:
  "0 < i \<Longrightarrow> ingest i r (m, dr) = Inr (m', dr') \<Longrightarrow> target_metric m' = target_metric m"
  by (auto simp: ingest_def Let_def fix_target_nonzero split: sum.splits if_splits)

lemma update_loop_fields:
  "update_loop i rs (m, dr) = Inr (m', dr') \<Longrightarrow>
     save_best m' = save_best m \<and> (0 < i \<longrightarrow> target_metric m' = target_metric m)"
proof (induction rs arbitrary: i m dr)
  case Nil
  then show ?case by simp
next
  case (Cons r rs)
  from Cons.prems obtain m1 dr1 where
    st: "ingest i r (m, dr) = Inr (m1, dr1)" and
    lp: "update_loop (Suc i) rs (m1, dr1) = Inr (m', dr')"
    by (auto split: sum.splits)
  from Cons.IH [OF lp] ingest_save_best [OF st] ingest_target_nonzero [OF _ st]
  show ?case by auto
qed

lemma ingest_not_save:
  "\<not> save_best m \<Longrightarrow> ingest i r (m, dr) = Inr (m', dr') \<Longrightarrow> dr' = dr"
  by (auto simp: ingest_def Let_def dest: fix_target_save_best split: sum.splits if_splits)

lemma ingest_save:
  "save_best m \<Longrightarrow> ingest i r (m, dr) = Inr (m', dr') \<Longrightarrow>
     \<exists>v. target_score (results r) (target_metric m') = Inr v \<and>
         dr' = upd_best i (data_path (pipe_conf r)) v (init_entry (data_path (pipe_conf r)) dr)"
  by (auto simp: ingest_def Let_def dest: fix_target_save_best split: sum.splits if_splits)

lemma ingest_track:
  assumes "save_best m" "ingest i r (m, dr) = Inr (m', dr')"
  shows "\<exists>v. target_score (results r) (target_metric m') = Inr v \<and>
           (\<forall>name. map_of dr' name = track i name [(data_path (pipe_conf r), v)] (map_of dr name))"
proof -
  from ingest_save [OF assms] obtain v where
    v: "target_score (results r) (target_metric m') = Inr v" and
    d: "dr' = upd_best i (data_path (pipe_conf r)) v (init_entry (data_path (pipe_conf r)) dr)"
    by blast
  have "map_of dr' name = track i name [(data_path (pipe_conf r), v)] (map_of dr name)" for name
    unfolding d
    by (auto simp: map_of_upd_best map_of_init_entry Let_def split: option.splits)
  with v show ?thesis by blast
qed

lemma track_append:
  "track i name (xs @ ys) b = track (i + length xs) name ys (track i name xs b)"
  by (induction xs arbitrary: i b) auto

lemma update_loop_track:
  assumes "update_loop i rs (m, dr) = Inr (m', dr')" "save_best m"
  shows "\<exists>vs. map (\<lambda>r. target_score (results r) (target_metric m')) rs = map Inr vs \<and>
           (\<forall>name. map_of dr' name =
              track i name (zip (map (\<lambda>r. data_path (pipe_conf r)) rs) vs) (map_of dr name))"
  using assms
proof (induction rs arbitrary: i m dr)
  case Nil
  then show ?case by simp
next
  case (Cons r rs)
  from Cons.prems obtain m1 dr1 where
    st: "ingest i r (m, dr) = Inr (m1, dr1)" and
    lp: "update_loop (Suc i) rs (m1, dr1) = Inr (m', dr')"
    by (auto split: sum.splits)
  have sb: "save_best m1" using ingest_save_best [OF st] Cons.prems by simp
  have tm: "target_metric m' = target_metric m1" using update_loop_fields [OF lp] by simp
  from ingest_track [OF Cons.prems(2) st] obtain v where
    v: "target_score (results r) (target_metric m1) = Inr v" and
    d1: "\<And>name. map_of dr1 name = track i name [(data_path (pipe_conf r), v)] (map_of dr name)"
    by blast
  from Cons.IH [OF lp sb] obtain vs where
    vs: "map (\<lambda>r. target_score (results r) (target_metric m')) rs = map Inr vs" and
    d2: "\<And>name. map_of dr' name =
           track (Suc i) name (zip (map (\<lambda>r. data_path (pipe_conf r)) rs) vs) (map_of dr1 name)"
    by blast
  have "map (\<lambda>r. target_score (results r) (target_metric m')) (r # rs) = map Inr (v # vs)"
    using v vs tm by simp
  moreover have "map_of dr' name =
      track i name (zip (map (\<lambda>r. data_path (pipe_conf r)) (r # rs)) (v # vs)) (map_of dr name)" for name
    using d2 [of name] d1 [of name] by (simp add: Let_def)
  ultimately show ?case by blast
qed


lemma track_Some:
  "\<exists>b'. track i name xs (Some b) = Some b' \<and> best_score b \<le> best_score b' \<and>
        (\<forall>j<length xs. fst (xs ! j) = name \<longrightarrow> snd (xs ! j) \<le> best_score b') \<and>
        (b' = b \<or>
         (\<exists>j<length xs. fst (xs ! j) = name \<and> snd (xs ! j) = best_score b' \<and>
              best_score b < best_score b' \<and> best_ind b' = Some (i + j + 1) \<and>
              (\<forall>j'<j. fst (xs ! j') = name \<longrightarrow> snd (xs ! j') < best_score b')))"
proof (induction xs arbitrary: i b)
  case Nil
  then show ?case by simp
next
  case (Cons x xs)
  obtain n v where x: "x = (n, v)" by (cases x)
  define b1 where "b1 = (if n = name \<and> v > best_score b
                         then \<lparr>best_score = v, best_ind = Some (i + 1)\<rparr> else b)"
  have step: "track i name (x # xs) (Some b) = track (Suc i) name xs (Some b1)"
    by (simp add: x b1_def Let_def)
  have le1: "best_score b \<le> best_score b1" by (simp add: b1_def)
  have hd_le: "n = name \<Longrightarrow> v \<le> best_score b1" by (simp add: b1_def)
  from Cons.IH [of "Suc i" b1] obtain b' where
    tr: "track (Suc i) name xs (Some b1) = Some b'" and
    le: "best_score b1 \<le> best_score b'" and
    ub: "\<forall>j<length xs. fst (xs ! j) = name \<longrightarrow> snd (xs ! j) \<le> best_score b'" and
    ch: "b' = b1 \<or>
         (\<exists>j<length xs. fst (xs ! j) = name \<and> snd (xs ! j) = best_score b' \<and>
              best_score b1 < best_score b' \<and> best_ind b' = Some (Suc i + j + 1) \<and>
              (\<forall>j'<j. fst (xs ! j') = name \<longrightarrow> snd (xs ! j') < best_score b'))"
    by blast
  have ub': "\<forall>j<length (x # xs). fst ((x # xs) ! j) = name \<longrightarrow> snd ((x # xs) ! j) \<le> best_score b'"
  proof (intro allI impI)
    fix j assume "j < length (x # xs)" "fst ((x # xs) ! j) = name"
    then show "snd ((x # xs) ! j) \<le> best_score b'"
      using ub hd_le le by (cases j) (auto simp: x)
  qed
  have ch': "b' = b \<or>
         (\<exists>j<length (x # xs). fst ((x # xs) ! j) = name \<and> snd ((x # xs) ! j) = best_score b' \<and>
              best_score b < best_score b' \<and> best_ind b' = Some (i + j + 1) \<and>
              (\<forall>j'<j. fst ((x # xs) ! j') = name \<longrightarrow> snd ((x # xs) ! j') < best_score b'))"
  proof (cases "b' = b")
    case True
    then show ?thesis by simp
  next
    case nb: False
    show ?thesis
    proof (cases "b' = b1")
      case True
      with nb have c: "n = name" "v > best_score b" and b1: "b1 = \<lparr>best_score = v, best_ind = Some (i + 1)\<rparr>"
        by (auto simp: b1_def split: if_splits)
      have "0 < length (x # xs) \<and> fst ((x # xs) ! 0) = name \<and> snd ((x # xs) ! 0) = best_score b' \<and>
              best_score b < best_score b' \<and> best_ind b' = Some (i + 0 + 1) \<and>
              (\<forall>j'<0. fst ((x # xs) ! j') = name \<longrightarrow> snd ((x # xs) ! j') < best_score b')"
        using c True b1 by (simp add: x)
      then show ?thesis by blast
    next
      case False
      with ch obtain j where j: "j < length xs" "fst (xs ! j) = name" "snd (xs ! j) = best_score b'"
        "best_score b1 < best_score b'" "best_ind b' = Some (Suc i + j + 1)"
        "\<forall>j'<j. fst (xs ! j') = name \<longrightarrow> snd (xs ! j') < best_score b'"
        by blast
      have before: "\<forall>j'<Suc j. fst ((x # xs) ! j') = name \<longrightarrow> snd ((x # xs) ! j') < best_score b'"
      proof (intro allI impI)
        fix j' assume "j' < Suc j" "fst ((x # xs) ! j') = name"
        then show "snd ((x # xs) ! j') < best_score b'"
          using j(4,6) hd_le by (cases j') (auto simp: x)
      qed
      have "Suc j < length (x # xs) \<and> fst ((x # xs) ! Suc j) = name \<and>
            snd ((x # xs) ! Suc j) = best_score b' \<and>
            best_score b < best_score b' \<and> best_ind b' = Some (i + Suc j + 1)"
        using j le1 by simp
      with before show ?thesis by blast
    qed
  qed
  from tr le le1 ub' ch' show ?case unfolding step by auto
qed

lemma track_None:
  "track i name xs None =
     (if name \<in> fst ` set xs then track i name xs (Some init_best) else None)"
proof (induction xs arbitrary: i)
  case Nil
  then show ?case by simp
next
  case (Cons x xs)
  obtain n v where x: "x = (n, v)" by (cases x)
  show ?case
  proof (cases "n = name")
    case True
    then show ?thesis by (simp add: x Let_def)
  next
    case False
    then show ?thesis using Cons.IH [of "Suc i"] by (simp add: x)
  qed
qed

lemma track_absent: "name \<notin> fst ` set xs \<Longrightarrow> track i name xs b = b"
  by (induction xs arbitrary: i b) auto


lemma update_loop_append:
  "update_loop i (xs @ ys) s =
     (case update_loop i xs s of Inl e \<Rightarrow> Inl e | Inr s' \<Rightarrow> update_loop (i + length xs) ys s')"
  by (induction xs arbitrary: i s) (auto split: sum.splits)

lemma update_loop_not_save:
  "\<not> save_best m \<Longrightarrow> update_loop i rs (m, dr) = Inr (m', dr') \<Longrightarrow> dr' = dr"
proof (induction rs arbitrary: i m dr)
  case Nil
  then show ?case by simp
next
  case (Cons r rs)
  from Cons.prems obtain m1 dr1 where
    st: "ingest i r (m, dr) = Inr (m1, dr1)" and
    lp: "update_loop (Suc i) rs (m1, dr1) = Inr (m', dr')"
    by (auto split: sum.splits)
  have "dr1 = dr" using ingest_not_save [OF Cons.prems(1) st] .
  moreover have "\<not> save_best m1" using ingest_save_best [OF st] Cons.prems(1) by simp
  ultimately show ?case using Cons.IH [OF _ lp] by simp
qed

lemma scores_nth:
  assumes "map (\<lambda>r. target_score (results r) tm) rs = map Inr vs"
  shows "length vs = length rs"
    and "j < length rs \<Longrightarrow> target_score (results (rs ! j)) tm = Inr (vs ! j)"
proof -
  show len: "length vs = length rs"
    using arg_cong [OF assms, of length] by simp
  assume j: "j < length rs"
  have "map (\<lambda>r. target_score (results r) tm) rs ! j = map Inr vs ! j"
    using assms by simp
  with j len show "target_score (results (rs ! j)) tm = Inr (vs ! j)" by simp
qed


subsection \<open>Entries of \<^verbatim>\<open>dataset_res\<close>\<close>

lemma update_loop_entry:
  assumes "update_loop i rs (m, dr) = Inr (m', dr')" and "save_best m"
    and "map_of dr name = Some b \<or>
         (map_of dr name = None \<and> b = init_best \<and> name \<in> (\<lambda>r. data_path (pipe_conf r)) ` set rs)"
  shows "\<exists>b'. map_of dr' name = Some b' \<and> best_score b \<le> best_score b' \<and>
           (\<forall>j<length rs. data_path (pipe_conf (rs ! j)) = name \<longrightarrow>
               (\<exists>v. target_score (results (rs ! j)) (target_metric m') = Inr v \<and> v \<le> best_score b')) \<and>
           (b' \<noteq> b \<longrightarrow>
             (\<exists>j<length rs. data_path (pipe_conf (rs ! j)) = name \<and>
                 target_score (results (rs ! j)) (target_metric m') = Inr (best_score b') \<and>
                 best_score b < best_score b' \<and> best_ind b' = Some (i + j + 1) \<and>
                 (\<forall>j'<j. data_path (pipe_conf (rs ! j')) = name \<longrightarrow>
                    (\<exists>v. target_score (results (rs ! j')) (target_metric m') = Inr v \<and> v < best_score b'))))"
proof -
  from update_loop_track [OF assms(1,2)] obtain vs where
    vs: "map (\<lambda>r. target_score (results r) (target_metric m')) rs = map Inr vs" and
    tr: "\<And>n. map_of dr' n = track i n (zip (map (\<lambda>r. data_path (pipe_conf r)) rs) vs) (map_of dr n)"
    by blast
  note len = scores_nth(1) [OF vs] and sc = scores_nth(2) [OF vs]
  let ?xs = "zip (map (\<lambda>r. data_path (pipe_conf r)) rs) vs"
  have lx: "length ?xs = length rs" using len by simp
  have nx: "fst (?xs ! j) = data_path (pipe_conf (rs ! j)) \<and> snd (?xs ! j) = vs ! j"
    if "j < length rs" for j using that len by simp
  have fx: "fst ` set ?xs = (\<lambda>r. data_path (pipe_conf r)) ` set rs"
  proof -
    have "map fst ?xs = map (\<lambda>r. data_path (pipe_conf r)) rs" using len by simp
    then have "set (map fst ?xs) = set (map (\<lambda>r. data_path (pipe_conf r)) rs)" by simp
    then show ?thesis by simp
  qed
  have start: "track i name ?xs (map_of dr name) = track i name ?xs (Some b)"
    using assms(3) fx by (auto simp: track_None)
  from track_Some [of i name ?xs b] obtain b' where
    t: "track i name ?xs (Some b) = Some b'" and
    le: "best_score b \<le> best_score b'" and
    ub: "\<forall>j<length ?xs. fst (?xs ! j) = name \<longrightarrow> snd (?xs ! j) \<le> best_score b'" and
    ch: "b' = b \<or>
         (\<exists>j<length ?xs. fst (?xs ! j) = name \<and> snd (?xs ! j) = best_score b' \<and>
              best_score b < best_score b' \<and> best_ind b' = Some (i + j + 1) \<and>
              (\<forall>j'<j. fst (?xs ! j') = name \<longrightarrow> snd (?xs ! j') < best_score b'))"
    by blast
  have m: "map_of dr' name = Some b'" using tr [of name] start t by simp
  have ub': "\<forall>j<length rs. data_path (pipe_conf (rs ! j)) = name \<longrightarrow>
               (\<exists>v. target_score (results (rs ! j)) (target_metric m') = Inr v \<and> v \<le> best_score b')"
    using ub lx nx sc by auto
  have ch': "\<exists>j<length rs. data_path (pipe_conf (rs ! j)) = name \<and>
                 target_score (results (rs ! j)) (target_metric m') = Inr (best_score b') \<and>
                 best_score b < best_score b' \<and> best_ind b' = Some (i + j + 1) \<and>
                 (\<forall>j'<j. data_path (pipe_conf (rs ! j')) = name \<longrightarrow>
                    (\<exists>v. target_score (results (rs ! j')) (target_metric m') = Inr v \<and> v < best_score b'))"
    if "b' \<noteq> b"
  proof -
    from ch that obtain j where j: "j < length ?xs" "fst (?xs ! j) = name"
      "snd (?xs ! j) = best_score b'" "best_score b < best_score b'"
      "best_ind b' = Some (i + j + 1)"
      "\<forall>j'<j. fst (?xs ! j') = name \<longrightarrow> snd (?xs ! j') < best_score b'"
      by blast
    have jl: "j < length rs" using j(1) lx by simp
    have a: "data_path (pipe_conf (rs ! j)) = name" using j(2) nx [OF jl] by simp
    have b: "target_score (results (rs ! j)) (target_metric m') = Inr (best_score b')"
      using sc [OF jl] j(3) nx [OF jl] by simp
    have c: "\<exists>v. target_score (results (rs ! j')) (target_metric m') = Inr v \<and> v < best_score b'"
      if "j' < j" "data_path (pipe_conf (rs ! j')) = name" for j'
    proof -
      have l: "j' < length rs" using that(1) jl by simp
      then show ?thesis using j(6) that nx [OF l] sc [OF l] by auto
    qed
    from jl a b c j(4,5) show ?thesis by blast
  qed
  from m le ub' ch' show ?thesis by blast
qed

lemma update_logger_entry_origin:
  assumes "update_logger self rs = Inr (self', dr)" and "map_of dr name = Some b"
  shows "save_best self \<and> name \<in> (\<lambda>r. data_path (pipe_conf r)) ` set rs"
proof -
  have lp: "update_loop 0 rs (self, []) = Inr (self', dr)"
    using assms(1) by (simp add: update_logger_def)
  have sb: "save_best self"
  proof (rule ccontr)
    assume "\<not> save_best self"
    from update_loop_not_save [OF this lp] assms(2) show False by simp
  qed
  from update_loop_track [OF lp sb] obtain vs where
    vs: "map (\<lambda>r. target_score (results r) (target_metric self')) rs = map Inr vs" and
    tr: "\<And>n. map_of dr n = track 0 n (zip (map (\<lambda>r. data_path (pipe_conf r)) rs) vs) (map_of [] n)"
    by blast
  have len: "length vs = length rs" using scores_nth(1) [OF vs] .
  have "map fst (zip (map (\<lambda>r. data_path (pipe_conf r)) rs) vs) = map (\<lambda>r. data_path (pipe_conf r)) rs"
    using len by simp
  then have "set (map fst (zip (map (\<lambda>r. data_path (pipe_conf r)) rs) vs))
             = set (map (\<lambda>r. data_path (pipe_conf r)) rs)" by simp
  then have fx: "fst ` set (zip (map (\<lambda>r. data_path (pipe_conf r)) rs) vs)
             = (\<lambda>r. data_path (pipe_conf r)) ` set rs" by simp
  have "name \<in> (\<lambda>r. data_path (pipe_conf r)) ` set rs"
  proof (rule ccontr)
    assume "name \<notin> (\<lambda>r. data_path (pipe_conf r)) ` set rs"
    then have "track 0 name (zip (map (\<lambda>r. data_path (pipe_conf r)) rs) vs) None = None"
      using fx by (simp add: track_absent)
    with tr [of name] assms(2) show False by simp
  qed
  with sb show ?thesis by simp
qed

lemma target_score_split:
  "target_score rm (Some t) = Inr v \<longleftrightarrow>
     (case rm ''test'' of
        Some ts \<Rightarrow> ts t = Some v
      | None \<Rightarrow> (\<exists>vs. rm ''valid'' = Some vs \<and> vs t = Some v))"
  by (auto simp: target_score_def split: option.splits)

lemma ingest_first_target:
  assumes "ingest 0 r (m, dr) = Inr (m', dr')"
  shows "case target_metric m of
           Some t \<Rightarrow> target_metric m' = Some t
         | None \<Rightarrow> train_metrics (pipe_conf r) \<noteq> [] \<and>
                    target_metric m' = Some (hd (train_metrics (pipe_conf r)))"
  using assms
  by (auto simp: ingest_def fix_target_def Let_def
           split: sum.splits if_splits option.splits list.splits)

lemma update_logger_target:
  assumes "update_logger self (r # rest) = Inr (self', dr)"
  shows "case target_metric self of
           Some t \<Rightarrow> target_metric self' = Some t
         | None \<Rightarrow> train_metrics (pipe_conf r) \<noteq> [] \<and>
                    target_metric self' = Some (hd (train_metrics (pipe_conf r)))"
proof -
  from assms obtain m1 dr1 where
    st: "ingest 0 r (self, []) = Inr (m1, dr1)" and
    lp: "update_loop (Suc 0) rest (m1, dr1) = Inr (self', dr)"
    by (auto simp: update_logger_def split: sum.splits)
  have "target_metric self' = target_metric m1" using update_loop_fields [OF lp] by simp
  with ingest_first_target [OF st] show ?thesis by (auto split: option.splits)
qed

lemma update_logger_prefix:
  assumes "update_logger self rs = Inr (self', dr)" and "0 < n" and "n \<le> length rs"
  shows "\<exists>s d. update_logger self (take n rs) = Inr (s, d) \<and> target_metric s = target_metric self'"
proof -
  have "update_loop 0 (take n rs @ drop n rs) (self, []) = Inr (self', dr)"
    using assms(1) by (simp add: update_logger_def)
  then obtain s d where
    a: "update_loop 0 (take n rs) (self, []) = Inr (s, d)" and
    b: "update_loop (0 + length (take n rs)) (drop n rs) (s, d) = Inr (self', dr)"
    unfolding update_loop_append by (auto split: sum.splits)
  have "0 < 0 + length (take n rs)" using assms(2,3) by simp
  with update_loop_fields [OF b] have "target_metric self' = target_metric s" by blast
  with a show ?thesis by (simp add: update_logger_def)
qed


lemma update_logger_entry_char:
  assumes "update_logger self rs = Inr (self', dr)" and "save_best self"
    and "j0 < length rs" and "data_path (pipe_conf (rs ! j0)) = name"
  shows "\<exists>b. map_of dr name = Some b \<and>
           (\<forall>j<length rs. data_path (pipe_conf (rs ! j)) = name \<longrightarrow>
              (\<exists>v. target_score (results (rs ! j)) (target_metric self') = Inr v \<and> v \<le> best_score b)) \<and>
           (case best_ind b of
              None \<Rightarrow> best_score b = - 1
            | Some k \<Rightarrow>
                0 < k \<and> k \<le> length rs \<and> data_path (pipe_conf (rs ! (k - 1))) = name \<and>
                target_score (results (rs ! (k - 1))) (target_metric self') = Inr (best_score b) \<and>
                - 1 < best_score b \<and>
                (\<forall>j<k - 1. data_path (pipe_conf (rs ! j)) = name \<longrightarrow>
                   (\<exists>v. target_score (results (rs ! j)) (target_metric self') = Inr v \<and>
                        v < best_score b)))"
proof -
  have lp: "update_loop 0 rs (self, []) = Inr (self', dr)"
    using assms(1) by (simp add: update_logger_def)
  have "rs ! j0 \<in> set rs" using assms(3) by (rule nth_mem)
  with assms(4) have inn: "name \<in> (\<lambda>r. data_path (pipe_conf r)) ` set rs" by auto
  from update_loop_entry [OF lp assms(2), of name init_best] inn
  obtain b where b: "map_of dr name = Some b" and
    ub: "\<forall>j<length rs. data_path (pipe_conf (rs ! j)) = name \<longrightarrow>
               (\<exists>v. target_score (results (rs ! j)) (target_metric self') = Inr v \<and> v \<le> best_score b)" and
    ch: "b \<noteq> init_best \<longrightarrow>
             (\<exists>j<length rs. data_path (pipe_conf (rs ! j)) = name \<and>
                 target_score (results (rs ! j)) (target_metric self') = Inr (best_score b) \<and>
                 best_score init_best < best_score b \<and> best_ind b = Some (0 + j + 1) \<and>
                 (\<forall>j'<j. data_path (pipe_conf (rs ! j')) = name \<longrightarrow>
                    (\<exists>v. target_score (results (rs ! j')) (target_metric self') = Inr v \<and> v < best_score b)))"
    by auto
  have cs: "case best_ind b of
              None \<Rightarrow> best_score b = - 1
            | Some k \<Rightarrow>
                0 < k \<and> k \<le> length rs \<and> data_path (pipe_conf (rs ! (k - 1))) = name \<and>
                target_score (results (rs ! (k - 1))) (target_metric self') = Inr (best_score b) \<and>
                - 1 < best_score b \<and>
                (\<forall>j<k - 1. data_path (pipe_conf (rs ! j)) = name \<longrightarrow>
                   (\<exists>v. target_score (results (rs ! j)) (target_metric self') = Inr v \<and>
                        v < best_score b))"
  proof (cases "b = init_best")
    case True
    then show ?thesis by (simp add: init_best_def)
  next
    case False
    with ch obtain j where j: "j < length rs" "data_path (pipe_conf (rs ! j)) = name"
      "target_score (results (rs ! j)) (target_metric self') = Inr (best_score b)"
      "best_score init_best < best_score b" "best_ind b = Some (0 + j + 1)"
      "\<forall>j'<j. data_path (pipe_conf (rs ! j')) = name \<longrightarrow>
          (\<exists>v. target_score (results (rs ! j')) (target_metric self') = Inr v \<and> v < best_score b)"
      by blast
    from j(4) have "- 1 < best_score b" by (simp add: init_best_def)
    with j(1,2,3,5,6) show ?thesis by simp
  qed
  from b ub cs show ?thesis by blast
qed

text \<open>On results that have the target metric in the split that is read, the loop returns.\<close>

lemma ingest_returns:
  assumes "0 < i" and "target_metric m = Some tm"
    and "save_best m \<longrightarrow> (\<exists>v. target_score (results r) (Some tm) = Inr v)"
  shows "\<exists>m' dr'. ingest i r (m, dr) = Inr (m', dr') \<and> target_metric m' = Some tm \<and>
           save_best m' = save_best m"
  using assms by (auto simp: ingest_def fix_target_def Let_def)

lemma update_loop_returns:
  assumes "0 < i" and "target_metric m = Some tm"
    and "save_best m \<longrightarrow> (\<forall>r\<in>set rs. \<exists>v. target_score (results r) (Some tm) = Inr v)"
  shows "\<exists>m' dr'. update_loop i rs (m, dr) = Inr (m', dr')"
  using assms
proof (induction rs arbitrary: i m dr)
  case Nil
  then show ?case by simp
next
  case (Cons r rs)
  have "save_best m \<longrightarrow> (\<exists>v. target_score (results r) (Some tm) = Inr v)"
    using Cons.prems(3) by simp
  from ingest_returns [OF Cons.prems(1,2) this, of dr] obtain m1 dr1 where
    st: "ingest i r (m, dr) = Inr (m1, dr1)" and
    t1: "target_metric m1 = Some tm" and s1: "save_best m1 = save_best m"
    by blast
  have "save_best m1 \<longrightarrow> (\<forall>r\<in>set rs. \<exists>v. target_score (results r) (Some tm) = Inr v)"
    using Cons.prems(3) s1 by simp
  from Cons.IH [OF _ t1 this, of "Suc i" dr1] obtain m' dr' where
    "update_loop (Suc i) rs (m1, dr1) = Inr (m', dr')" by auto
  with st show ?case by simp
qed

lemma ingest_first_returns:
  assumes "case target_metric m of
             Some t \<Rightarrow> tm = t
           | None \<Rightarrow> train_metrics (pipe_conf r) \<noteq> [] \<and> tm = hd (train_metrics (pipe_conf r))"
    and "save_best m \<longrightarrow> (\<exists>v. target_score (results r) (Some tm) = Inr v)"
  shows "\<exists>m' dr'. ingest 0 r (m, dr) = Inr (m', dr') \<and> target_metric m' = Some tm \<and>
           save_best m' = save_best m"
  using assms
  by (cases "target_metric m"; cases "train_metrics (pipe_conf r)")
     (auto simp: ingest_def fix_target_def Let_def)

lemma update_logger_returns:
  assumes "case target_metric self of
             Some t \<Rightarrow> tm = t
           | None \<Rightarrow> train_metrics (pipe_conf r) \<noteq> [] \<and> tm = hd (train_metrics (pipe_conf r))"
    and "save_best self \<longrightarrow> (\<forall>x\<in>set (r # rest). \<exists>v. target_score (results x) (Some tm) = Inr v)"
  shows "\<exists>self' dr. update_logger self (r # rest) = Inr (self', dr)"
proof -
  have "save_best self \<longrightarrow> (\<exists>v. target_score (results r) (Some tm) = Inr v)"
    using assms(2) by simp
  from ingest_first_returns [OF assms(1) this, of "[]"] obtain m1 dr1 where
    st: "ingest 0 r (self, []) = Inr (m1, dr1)" and
    t1: "target_metric m1 = Some tm" and s1: "save_best m1 = save_best self"
    by blast
  have "save_best m1 \<longrightarrow> (\<forall>x\<in>set rest. \<exists>v. target_score (results x) (Some tm) = Inr v)"
    using assms(2) s1 by simp
  from update_loop_returns [OF _ t1 this, of "Suc 0" dr1] obtain m' dr' where
    "update_loop (Suc 0) rest (m1, dr1) = Inr (m', dr')" by auto
  with st show ?thesis by (simp add: update_logger_def)
qed

lemma update_logger_no_best:
  assumes "update_logger self rs = Inr (self', dr)" and "save_best self"
    and "x \<in> set rs" and "data_path (pipe_conf x) = name"
    and "\<forall>j<length rs. data_path (pipe_conf (rs ! j)) = name \<longrightarrow>
           (\<forall>v. target_score (results (rs ! j)) (target_metric self') = Inr v \<longrightarrow> v \<le> - 1)"
  shows "map_of dr name = Some init_best"
proof -
  have lp: "update_loop 0 rs (self, []) = Inr (self', dr)"
    using assms(1) by (simp add: update_logger_def)
  have inn: "name \<in> (\<lambda>r. data_path (pipe_conf r)) ` set rs" using assms(3,4) by auto
  from update_loop_entry [OF lp assms(2), of name init_best] inn
  obtain b' where b': "map_of dr name = Some b'" and
    ch: "b' \<noteq> init_best \<longrightarrow>
             (\<exists>j<length rs. data_path (pipe_conf (rs ! j)) = name \<and>
                 target_score (results (rs ! j)) (target_metric self') = Inr (best_score b') \<and>
                 best_score init_best < best_score b')"
    by auto
  have "b' = init_best"
  proof (rule ccontr)
    assume "b' \<noteq> init_best"
    with ch obtain j where "j < length rs" "data_path (pipe_conf (rs ! j)) = name"
      "target_score (results (rs ! j)) (target_metric self') = Inr (best_score b')"
      "best_score init_best < best_score b'" by blast
    with assms(5) show False by (auto simp: init_best_def)
  qed
  with b' show ?thesis by simp
qed

text \<open>
  What one iteration does to the entry of its dataset, and what the entry of a dataset is
  when the loop has returned, in terms of the splits of the results.
\<close>

lemma ingest_entry:
  assumes "ingest i x (m, d) = Inr (m', d')" and "save_best m"
  shows "\<exists>t v. target_metric m' = Some t \<and>
           (case results x ''test'' of
              Some ts \<Rightarrow> ts t = Some v
            | None \<Rightarrow> (\<exists>vs. results x ''valid'' = Some vs \<and> vs t = Some v)) \<and>
           map_of d' (data_path (pipe_conf x))
             = Some (let b0 = (case map_of d (data_path (pipe_conf x)) of
                                 None \<Rightarrow> init_best | Some b \<Rightarrow> b)
                     in if best_score b0 < v
                        then \<lparr>best_score = v, best_ind = Some (i + 1)\<rparr> else b0) \<and>
           (\<forall>n. n \<noteq> data_path (pipe_conf x) \<longrightarrow> map_of d' n = map_of d n)"
proof -
  from ingest_track [OF assms(2,1)] obtain v where
    v: "target_score (results x) (target_metric m') = Inr v" and
    tr: "\<And>name. map_of d' name = track i name [(data_path (pipe_conf x), v)] (map_of d name)"
    by blast
  from v obtain t where t: "target_metric m' = Some t"
    by (cases "target_metric m'") (simp_all add: target_score_def)
  from v t have rd: "case results x ''test'' of
              Some ts \<Rightarrow> ts t = Some v
            | None \<Rightarrow> (\<exists>vs. results x ''valid'' = Some vs \<and> vs t = Some v)"
    by (simp add: target_score_split)
  have a: "map_of d' (data_path (pipe_conf x))
             = Some (let b0 = (case map_of d (data_path (pipe_conf x)) of
                                 None \<Rightarrow> init_best | Some b \<Rightarrow> b)
                     in if best_score b0 < v
                        then \<lparr>best_score = v, best_ind = Some (i + 1)\<rparr> else b0)"
    using tr [of "data_path (pipe_conf x)"] by (simp add: Let_def)
  have b: "\<forall>n. n \<noteq> data_path (pipe_conf x) \<longrightarrow> map_of d' n = map_of d n"
    using tr by simp
  from t rd a b show ?thesis by blast
qed

lemma update_logger_best_score:
  assumes "update_logger self rs = Inr (self', dr)" and "save_best self"
    and "target_metric self' = Some tm" and "x \<in> set rs"
  shows "\<exists>b v. map_of dr (data_path (pipe_conf x)) = Some b \<and>
           (case results x ''test'' of
              Some ts \<Rightarrow> ts tm = Some v
            | None \<Rightarrow> (\<exists>vs. results x ''valid'' = Some vs \<and> vs tm = Some v)) \<and>
           v \<le> best_score b \<and>
           (best_score b = - 1 \<or>
            (\<exists>y\<in>set rs. data_path (pipe_conf y) = data_path (pipe_conf x) \<and>
                (case results y ''test'' of
                   Some ts \<Rightarrow> ts tm = Some (best_score b)
                 | None \<Rightarrow> (\<exists>vs. results y ''valid'' = Some vs \<and> vs tm = Some (best_score b)))))"
proof -
  let ?name = "data_path (pipe_conf x)"
  from assms(4) obtain j0 where j0: "j0 < length rs" "rs ! j0 = x" by (meson in_set_conv_nth)
  then have j0n: "data_path (pipe_conf (rs ! j0)) = ?name" by simp
  from update_logger_entry_char [OF assms(1,2) j0(1) j0n] obtain b where
    b: "map_of dr ?name = Some b" and
    ub: "\<And>j. j < length rs \<Longrightarrow> data_path (pipe_conf (rs ! j)) = ?name \<Longrightarrow>
              (\<exists>v. target_score (results (rs ! j)) (target_metric self') = Inr v \<and> v \<le> best_score b)" and
    cs: "case best_ind b of
              None \<Rightarrow> best_score b = - 1
            | Some k \<Rightarrow>
                0 < k \<and> k \<le> length rs \<and> data_path (pipe_conf (rs ! (k - 1))) = ?name \<and>
                target_score (results (rs ! (k - 1))) (target_metric self') = Inr (best_score b) \<and>
                - 1 < best_score b \<and>
                (\<forall>j<k - 1. data_path (pipe_conf (rs ! j)) = ?name \<longrightarrow>
                   (\<exists>v. target_score (results (rs ! j)) (target_metric self') = Inr v \<and>
                        v < best_score b))"
    by blast
  from ub [OF j0(1) j0n] j0(2) assms(3) obtain v where
    v: "target_score (results x) (Some tm) = Inr v" and le: "v \<le> best_score b" by auto
  from v have rd: "case results x ''test'' of
              Some ts \<Rightarrow> ts tm = Some v
            | None \<Rightarrow> (\<exists>vs. results x ''valid'' = Some vs \<and> vs tm = Some v)"
    by (simp add: target_score_split)
  have at: "best_score b = - 1 \<or>
            (\<exists>y\<in>set rs. data_path (pipe_conf y) = ?name \<and>
                (case results y ''test'' of
                   Some ts \<Rightarrow> ts tm = Some (best_score b)
                 | None \<Rightarrow> (\<exists>vs. results y ''valid'' = Some vs \<and> vs tm = Some (best_score b))))"
  proof (cases "best_ind b")
    case None
    with cs show ?thesis by simp
  next
    case (Some k)
    with cs have k: "0 < k" "k \<le> length rs"
      and nm: "data_path (pipe_conf (rs ! (k - 1))) = ?name"
      and sc: "target_score (results (rs ! (k - 1))) (target_metric self') = Inr (best_score b)"
      by simp_all
    from k have "rs ! (k - 1) \<in> set rs" by simp
    moreover from sc have "target_score (results (rs ! (k - 1))) (Some tm) = Inr (best_score b)"
      unfolding assms(3) .
    then have "case results (rs ! (k - 1)) ''test'' of
                   Some ts \<Rightarrow> ts tm = Some (best_score b)
                 | None \<Rightarrow> (\<exists>vs. results (rs ! (k - 1)) ''valid'' = Some vs \<and>
                               vs tm = Some (best_score b))"
      by (rule target_score_split [THEN iffD1])
    ultimately show ?thesis using nm by blast
  qed
  from b rd le at show ?thesis by blast
qed

section \<open>Properties of retention\<close>

lemma isdir_map_of: "map_of d f = map_of d' f \<Longrightarrow> isdir d f = isdir d' f"
  by (simp add: isdir_def)

lemma isfile_map_of: "map_of d f = map_of d' f \<Longrightarrow> isfile d f = isfile d' f"
  by (simp add: isfile_def)

lemma node_kinds: "f \<in> fst ` set d \<longleftrightarrow> isdir d f \<or> isfile d f"
proof (cases "map_of d f")
  case None
  then have "f \<notin> fst ` set d" by (simp add: map_of_eq_None_iff)
  with None show ?thesis by (simp add: isdir_def isfile_def)
next
  case (Some n)
  then have "f \<in> fst ` set d" by (metis map_of_eq_None_iff option.distinct(1))
  with Some show ?thesis by (cases n) (simp_all add: isdir_def isfile_def)
qed

lemma not_both_kinds: "isdir d f \<Longrightarrow> \<not> isfile d f"
  by (auto simp: isdir_def isfile_def split: option.splits node.splits)

lemma map_of_snoc_fresh:
  "f \<notin> fst ` set d \<Longrightarrow> map_of (d @ [(f, n)]) g = (if g = f then Some n else map_of d g)"
proof -
  assume "f \<notin> fst ` set d"
  then have "map_of d f = None" by (simp add: map_of_eq_None_iff)
  then show ?thesis by (cases "map_of d g") (auto simp: map_add_def)
qed

lemma shutil_move_ok:
  assumes "f \<notin> fst ` set dst" and "map_of src f = Some n"
  shows "shutil_move f (src, dst) = Inr (AList.delete f src, dst @ [(f, n)])"
  using assms by (simp add: shutil_move_def)

lemma startswith_pipe_name: "startswith (pipe_name k) ''pipe''"
  by (simp add: startswith_def pipe_name_def)

lemma best_dir_neq: "best_dir name \<noteq> name"
  by (simp add: best_dir_def)

lemma move_files_maps:
  assumes "distinct files"
    and "\<forall>f\<in>set files. map_of src f \<noteq> None"
    and "startswith bestf ''pipe''"
    and "\<forall>f\<in>set files. (\<not> startswith f ''pipe'' \<longrightarrow> \<not> isdir dst f) \<and> (f = bestf \<longrightarrow> \<not> isfile dst f)"
  shows "\<exists>src' dst'. move_files bestf files (src, dst) = ((src', dst'), None) \<and>
           (\<forall>g. map_of dst' g =
              (if g \<in> set files \<and> ((\<not> startswith g ''pipe'' \<and> \<not> isfile dst g) \<or> g = bestf)
               then map_of src g else map_of dst g))"
  using assms
proof (induction files arbitrary: src dst)
  case Nil
  then show ?case by simp
next
  case (Cons f files)
  from Cons.prems(2) obtain n where n: "map_of src f = Some n" by auto
  have dist: "distinct files" and fnot: "f \<notin> set files" using Cons.prems(1) by simp_all
  define moved where "moved \<longleftrightarrow> (\<not> startswith f ''pipe'' \<and> \<not> isfile dst f) \<or> f = bestf"
  define src1 where "src1 = (if moved then AList.delete f src else src)"
  define dst1 where "dst1 = (if moved then AList.delete f dst @ [(f, n)] else dst)"
  have fresh: "f \<notin> fst ` set (AList.delete f dst)"
    by (simp add: AList.delete_eq) force
  have del_id: "AList.delete f dst = dst" if "f \<notin> fst ` set dst"
    using that by (simp add: delete_id)
  have step: "move_files bestf (f # files) (src, dst) = move_files bestf files (src1, dst1)"
  proof (cases "\<not> startswith f ''pipe'' \<and> \<not> isfile dst f")
    case True
    then have "\<not> isdir dst f" using Cons.prems(4) by simp
    with True have nk: "f \<notin> fst ` set dst" by (simp add: node_kinds)
    have mv: "moved" using True by (simp add: moved_def)
    show ?thesis
      using True shutil_move_ok [OF nk n] mv del_id [OF nk]
      by (simp add: src1_def dst1_def)
  next
    case False
    show ?thesis
    proof (cases "f = bestf")
      case eq: True
      then have mv: "moved" by (simp add: moved_def)
      have nf: "\<not> isfile dst f" using Cons.prems(4) eq by simp
      show ?thesis
      proof (cases "isdir dst f")
        case True
        show ?thesis
          using Cons.prems(3) eq True shutil_move_ok [OF fresh n] mv
          by (simp add: src1_def dst1_def)
      next
        case nd: False
        with nf have nk: "f \<notin> fst ` set dst" by (simp add: node_kinds)
        show ?thesis
          using Cons.prems(3) eq nd shutil_move_ok [OF nk n] mv del_id [OF nk]
          by (simp add: src1_def dst1_def)
      qed
    next
      case ne: False
      with False have nm: "\<not> moved" by (auto simp: moved_def)
      from False have "startswith f ''pipe'' \<or> isfile dst f" by blast
      then show ?thesis
      proof
        assume "startswith f ''pipe''"
        with ne nm show ?thesis by (simp add: src1_def dst1_def)
      next
        assume "isfile dst f"
        with ne nm show ?thesis by (simp add: src1_def dst1_def)
      qed
    qed
  qed
  have m_dst1: "map_of dst1 g = (if g = f \<and> moved then Some n else map_of dst g)" for g
  proof (cases moved)
    case True
    have "map_of (AList.delete f dst @ [(f, n)]) g =
            (if g = f then Some n else map_of (AList.delete f dst) g)"
      by (rule map_of_snoc_fresh [OF fresh])
    with True show ?thesis by (simp add: dst1_def delete_conv')
  next
    case False
    then show ?thesis by (simp add: dst1_def)
  qed
  have m_src1: "map_of src1 g = map_of src g" if "g \<noteq> f" for g
    using that by (simp add: src1_def delete_conv')
  have p2: "\<forall>g\<in>set files. map_of src1 g \<noteq> None"
  proof
    fix g assume g: "g \<in> set files"
    with fnot have "g \<noteq> f" by blast
    from m_src1 [OF this] Cons.prems(2) g show "map_of src1 g \<noteq> None" by simp
  qed
  have keep: "isdir dst1 g = isdir dst g \<and> isfile dst1 g = isfile dst g" if "g \<noteq> f" for g
    using that m_dst1 [of g] by (simp add: isdir_def isfile_def)
  have p4: "\<forall>g\<in>set files. (\<not> startswith g ''pipe'' \<longrightarrow> \<not> isdir dst1 g) \<and> (g = bestf \<longrightarrow> \<not> isfile dst1 g)"
  proof
    fix g assume g: "g \<in> set files"
    with fnot have "g \<noteq> f" by blast
    from Cons.prems(4) g
    have "(\<not> startswith g ''pipe'' \<longrightarrow> \<not> isdir dst g) \<and> (g = bestf \<longrightarrow> \<not> isfile dst g)"
      by simp
    with keep [OF \<open>g \<noteq> f\<close>]
    show "(\<not> startswith g ''pipe'' \<longrightarrow> \<not> isdir dst1 g) \<and> (g = bestf \<longrightarrow> \<not> isfile dst1 g)"
      by blast
  qed
  from Cons.IH [OF dist p2 Cons.prems(3) p4] obtain src' dst' where
    res: "move_files bestf files (src1, dst1) = ((src', dst'), None)" and
    maps: "\<And>g. map_of dst' g =
              (if g \<in> set files \<and> ((\<not> startswith g ''pipe'' \<and> \<not> isfile dst1 g) \<or> g = bestf)
               then map_of src1 g else map_of dst1 g)"
    by blast
  have "map_of dst' g =
              (if g \<in> set (f # files) \<and> ((\<not> startswith g ''pipe'' \<and> \<not> isfile dst g) \<or> g = bestf)
               then map_of src g else map_of dst g)" for g
  proof (cases "g = f")
    case True
    then show ?thesis using maps [of g] fnot m_dst1 [of g] n by (simp add: moved_def)
  next
    case False
    then show ?thesis using maps [of g] keep [OF False] m_src1 [OF False] m_dst1 [of g] by auto
  qed
  with res step show ?case by simp
qed

lemma makedirs_dest_existing:
  "map_of fs d = Some (Dir ds) \<Longrightarrow> makedirs_dest fs d = Inr fs"
  by (simp add: makedirs_dest_def isdir_def)

lemma makedirs_dest_absent:
  "map_of fs d = None \<Longrightarrow> makedirs_dest fs d = Inr (fs @ [(d, Dir [])])"
proof -
  assume n: "map_of fs d = None"
  then have "d \<notin> fst ` set fs" by (simp add: map_of_eq_None_iff)
  with n show ?thesis by (simp add: makedirs_dest_def isdir_def)
qed

lemma retain_dataset_maps:
  assumes src: "map_of fs name = Some (Dir cs)" and dist: "distinct (map fst cs)"
    and dest: "(map_of fs (best_dir name) = None \<and> ds = []) \<or> map_of fs (best_dir name) = Some (Dir ds)"
    and clash: "\<forall>f\<in>fst ` set cs. (\<not> startswith f ''pipe'' \<longrightarrow> \<not> isdir ds f) \<and>
                                  (f = pipe_name k \<longrightarrow> \<not> isfile ds f)"
  shows "\<exists>fs' ds'. retain_dataset fs name k = (fs', None) \<and> map_of fs' name = None \<and>
           map_of fs' (best_dir name) = Some (Dir ds') \<and>
           (\<forall>g. map_of ds' g =
              (if g \<in> fst ` set cs \<and> ((\<not> startswith g ''pipe'' \<and> \<not> isfile ds g) \<or> g = pipe_name k)
               then map_of cs g else map_of ds g)) \<and>
           (\<forall>p. p \<noteq> name \<and> p \<noteq> best_dir name \<longrightarrow> map_of fs' p = map_of fs p)"
proof -
  define fs1 where "fs1 = (if map_of fs (best_dir name) = None then fs @ [(best_dir name, Dir [])] else fs)"
  have mk: "makedirs_dest fs (best_dir name) = Inr fs1"
    using dest by (auto simp: fs1_def makedirs_dest_existing makedirs_dest_absent)
  have m1: "map_of fs1 p = (if p = best_dir name then Some (Dir ds) else map_of fs p)" for p
  proof (cases "map_of fs (best_dir name)")
    case None
    then have fr: "best_dir name \<notin> fst ` set fs" by (simp add: map_of_eq_None_iff)
    from None dest have "ds = []" by auto
    with None map_of_snoc_fresh [OF fr, of "Dir []" p] show ?thesis by (simp add: fs1_def)
  next
    case (Some n)
    with dest show ?thesis by (auto simp: fs1_def)
  qed
  have s1: "map_of fs1 name = Some (Dir cs)" using m1 [of name] src best_dir_neq [of name] by simp
  have d1: "map_of fs1 (best_dir name) = Some (Dir ds)" using m1 [of "best_dir name"] by simp
  have ex: "\<forall>f\<in>set (map fst cs). map_of cs f \<noteq> None"
    by (simp add: map_of_eq_None_iff)
  have cl: "\<forall>f\<in>set (map fst cs). (\<not> startswith f ''pipe'' \<longrightarrow> \<not> isdir ds f) \<and>
                                  (f = pipe_name k \<longrightarrow> \<not> isfile ds f)"
    using clash by simp
  from move_files_maps [OF dist ex startswith_pipe_name cl] obtain cs' ds' where
    mv: "move_files (pipe_name k) (map fst cs) (cs, ds) = ((cs', ds'), None)" and
    maps: "\<And>g. map_of ds' g =
              (if g \<in> set (map fst cs) \<and> ((\<not> startswith g ''pipe'' \<and> \<not> isfile ds g) \<or> g = pipe_name k)
               then map_of cs g else map_of ds g)"
    by blast
  let ?fs' = "AList.delete name (AList.update (best_dir name) (Dir ds') fs1)"
  have r: "retain_dataset fs name k = (?fs', None)"
    by (simp add: retain_dataset_def mk s1 d1 mv)
  have a: "map_of ?fs' name = None" by (simp add: delete_conv')
  have b: "map_of ?fs' (best_dir name) = Some (Dir ds')"
    using best_dir_neq [of name] by (simp add: delete_conv' update_conv')
  have c: "map_of ?fs' p = map_of fs p" if "p \<noteq> name \<and> p \<noteq> best_dir name" for p
    using that m1 [of p] by (simp add: delete_conv' update_conv')
  from r a b c maps show ?thesis by auto
qed

lemma retain_dataset_finalized:
  assumes "map_of fs name = None" and "map_of fs (best_dir name) = Some (Dir ds)"
  shows "retain_dataset fs name k = (fs, Some FileNotFoundError)"
  using assms by (simp add: retain_dataset_def makedirs_dest_existing)

lemma retain_finalized:
  assumes "map_of fs name = None" and "map_of fs (best_dir name) = Some (Dir ds)"
  shows "retain fs ((name, b) # rest) = (fs, Some FileNotFoundError)"
  using retain_dataset_finalized [OF assms] by simp

section \<open>Properties of scheduling\<close>


lemma train_pipe_res:
  "train_pipe ev clock a = Inr out \<Longrightarrow> res out = run_pipe ev clock a"
  by (auto simp: train_pipe_def split: if_splits option.splits)

lemma train_pipe_total:
  "\<not> gpu a \<or> gpu_ind a \<noteq> None \<Longrightarrow> \<exists>out. train_pipe ev clock a = Inr out"
  by (auto simp: train_pipe_def)





section \<open>Properties of planning\<close>


lemma int_mul_07_90: "int_mul_07 90 = 62"
  by code_simp

lemma int_mul_07_small:
  "list_all (\<lambda>n. int_mul_07 n = 7 * n div 10) (map int [0..<90])"
  by code_simp

lemma clamp_to_cpu_fields [simp]:
  "use_all_gpus (clamp_to_cpu ev self) = use_all_gpus self"
  "use_multi_gpus (clamp_to_cpu ev self) = use_multi_gpus self"
  "max_num_workers_u (clamp_to_cpu ev self) = map_option (\<lambda>w. min w (cpu_count ev)) (max_num_workers_u self)"
  by (auto simp: clamp_to_cpu_def split: option.splits)

lemma prepare_both_modes:
  "use_all_gpus self \<Longrightarrow> truthy (use_multi_gpus self) \<Longrightarrow>
     prepare_multiprocess ev self = Inl ValueError"
  by (simp add: prepare_multiprocess_def Let_def)

lemma init_both_modes:
  "arg_multiprocessing a \<Longrightarrow> arg_use_all_gpus a \<Longrightarrow> truthy (arg_use_multi_gpus a) \<Longrightarrow>
     init ev a = Inl ValueError"
  by (simp add: init_def Let_def prepare_both_modes)


section \<open>The example inputs, evaluated\<close>

lemmas agg_defs = update_logger_def ingest_def fix_target_def write_log_def Let_def target_score_def
  upd_best_def init_entry_def init_best_def result_A_def conf_A_def example_manager_def
  example_manager_acc_def new_logger_def

lemmas sched_defs = pipes_results_def pool_outputs_def pool_size_def imap_unordered_def
  cpu_configs_def gpu_gen_def train_pipe_def run_pipe_def example_env_def example_scores_def
  example_confs_def example_manager_def conf_A_def result_A_def new_logger_def

lemmas fs_defs = retain_dataset_def makedirs_dest_def best_dir_def isdir_def isfile_def
  startswith_def shutil_move_def pipe_name_def str_nat.simps AList.delete_eq
  example_fs_def example_work_def example_old_best_def example_fs_rerun_def example_fs_done_def






lemma example_retention:
  "retain_dataset example_fs ''A'' (Some 2) = (example_fs_done, None)"
  by (simp add: fs_defs)

lemma example_retention_rerun:
  "retain_dataset example_fs_rerun ''A'' (Some 2)
     = ([(''A_best_pipe'', Dir [(''vocab.dict'', File ''v0''),
                              (''pipe_2'', Dir [(''config.json'', File ''c2'')])])], None)"
  by (simp add: fs_defs)

section \<open>The claims\<close>




text \<open>
  Claim C2, without the job index. A worker whose arguments pass the check of
  \<^verbatim>\<open>train_pipe\<close> returns a result made of the config it was given, the metrics of the
  cross validation (under \<^verbatim>\<open>'test'\<close>) or of the evaluation, and the difference of the two
  readings of the clock.
\<close>

theorem job_result_contents:
  assumes "\<not> gpu a \<or> gpu_ind a \<noteq> None"
  shows "\<exists>out. train_pipe ev clock a = Inr out \<and>
           res out = \<lparr>pipe_conf = pipe_config a,
                      results = (if arg_cross_validation a
                                 then [''test'' \<mapsto> calc_cv_score ev (pipe_config a) (arg_folds a)]
                                 else train_evaluate ev (pipe_config a)),
                      pipe_time = snd clock - fst clock\<rparr>"
proof -
  from train_pipe_total [OF assms] obtain out where o: "train_pipe ev clock a = Inr out" by blast
  from train_pipe_res [OF o] o show ?thesis by (simp add: run_pipe_def)
qed

text \<open>
  A worker pinned to GPU 1 that trains the pipeline \<open>p0\<close>.
\<close>

theorem job_result_contents_witness:
  "gpu \<lparr>pipe_config = conf_A ''p0'', arg_cross_validation = False, arg_folds = 5,
        gpu = True, gpu_ind = Some 1\<rparr> \<and>
   gpu_ind \<lparr>pipe_config = conf_A ''p0'', arg_cross_validation = False, arg_folds = 5,
            gpu = True, gpu_ind = Some 1\<rparr> \<noteq> None \<and>
   (\<exists>out. train_pipe example_env (0, 1)
             \<lparr>pipe_config = conf_A ''p0'', arg_cross_validation = False, arg_folds = 5,
              gpu = True, gpu_ind = Some 1\<rparr> = Inr out \<and>
          res out = result_A ''p0'' 0.5)"
proof -
  let ?a = "\<lparr>pipe_config = conf_A ''p0'', arg_cross_validation = False, arg_folds = 5,
             gpu = True, gpu_ind = Some (1::int)\<rparr>"
  let ?r = "\<lparr>pipe_conf = pipe_config ?a,
             results = (if arg_cross_validation ?a
                        then [''test'' \<mapsto> calc_cv_score example_env (pipe_config ?a) (arg_folds ?a)]
                        else train_evaluate example_env (pipe_config ?a)),
             pipe_time = snd (0::real, 1::real) - fst (0::real, 1::real)\<rparr>"
  have h: "\<not> gpu ?a \<or> gpu_ind ?a \<noteq> None" by simp
  have e: "?r = result_A ''p0'' 0.5"
    by (simp add: result_A_def conf_A_def example_env_def example_scores_def)
  have "\<exists>out. train_pipe example_env (0, 1) ?a = Inr out \<and> res out = ?r"
    by (rule job_result_contents [OF h])
  then have "\<exists>out. train_pipe example_env (0, 1) ?a = Inr out \<and> res out = result_A ''p0'' 0.5"
    unfolding e .
  moreover have "gpu ?a" and "gpu_ind ?a \<noteq> None" by simp_all
  ultimately show ?thesis by (intro conjI)
qed

text \<open>
  Claim C2 as it is worded fails: the jobs submitted at indices 0 and 1 with equal configs
  and equal timings return equal results, so a result does not hold the index of its job.
\<close>

theorem job_result_without_index_counterexample:
  "pipes_results example_env example_manager [conf_A ''p0'', conf_A ''p0''] [0, 1]
     = Inr [result_A ''p0'' 0.5, result_A ''p0'' 0.5]"
  by (simp add: sched_defs)

text \<open>
  Claim C3, evaluated on the explicit GPU list \<open>[2, 3]\<close> with both GPUs idle and four
  pipelines. Planning stores \<open>[2, 3]\<close> in \<^verbatim>\<open>self.available_gpu\<close>, \<^verbatim>\<open>gpu_gen\<close> hands the
  workers the positions 0, 1, 0, 1, and the workers set \<^verbatim>\<open>CUDA_VISIBLE_DEVICES\<close> to
  \<open>0\<close>, \<open>1\<close>, \<open>0\<close>, \<open>1\<close>: the position in the list, not the GPU index \<open>2\<close> or \<open>3\<close> stored
  at that position.
\<close>

theorem gpu_slot_position_not_device:
  "init example_env gpu_list_args = Inr gpu_list_manager \<and>
   available_gpu gpu_list_manager = Some [2, 3] \<and>
   map_sum id (map gpu_ind) (gpu_gen gpu_list_manager (example_confs @ [conf_A ''p3'']))
     = Inr [Some 0, Some 1, Some 0, Some 1] \<and>
   map_sum id (map cuda_visible_devices)
     (pool_outputs example_env gpu_list_manager (example_confs @ [conf_A ''p3'']) [0, 1, 2, 3])
     = Inr [''0'', ''1'', ''0'', ''1'']"
proof -
  have a: "init example_env gpu_list_args = Inr gpu_list_manager"
    by (simp add: init_def prepare_multiprocess_def clamp_to_cpu_def plan_multi_gpus_def truthy_def
          gpu_list_args_def gpu_list_manager_def example_args_def example_manager_def
          example_env_def new_logger_def Let_def)
  have b: "available_gpu gpu_list_manager = Some [2, 3]"
    by (simp add: gpu_list_manager_def)
  have c: "map_sum id (map gpu_ind) (gpu_gen gpu_list_manager (example_confs @ [conf_A ''p3'']))
     = Inr [Some 0, Some 1, Some 0, Some 1]"
    by (simp add: gpu_gen_def gpu_list_manager_def example_manager_def example_confs_def conf_A_def)
  have d: "map_sum id (map cuda_visible_devices)
     (pool_outputs example_env gpu_list_manager (example_confs @ [conf_A ''p3'']) [0, 1, 2, 3])
     = Inr [''0'', ''1'', ''0'', ''1'']"
    by (simp add: pool_outputs_def pool_size_def imap_unordered_def gpu_gen_def train_pipe_def
          gpu_list_manager_def example_manager_def example_confs_def example_env_def
          str_int_def str_nat.simps conf_A_def run_pipe_def)
  from a b c d show ?thesis by blast
qed




text \<open>
  Claim C5, with the name the source gives the directory, \<^verbatim>\<open>name + '_best_pipe'\<close>.
  Let the working directory of the dataset have the entries \<open>cs\<close> and the best directory
  the entries \<open>ds\<close> (none if it does not exist yet), such that no entry of \<open>cs\<close> whose name
  does not start with \<^verbatim>\<open>pipe\<close> is a directory in \<open>ds\<close> and the checkpoint of the best
  pipeline is not a file in \<open>ds\<close>. Then retention succeeds; the working directory is gone;
  the best directory holds every entry of \<open>cs\<close> whose name does not start with
  \<^verbatim>\<open>pipe\<close>, unless \<open>ds\<close> has a file of that name, which stays; of the entries whose name
  starts with \<^verbatim>\<open>pipe\<close> it holds the checkpoint of the best pipeline only, in place of a
  directory of that name in \<open>ds\<close>; everything else in \<open>ds\<close> and in the checkpoint
  directory is as before.
\<close>

theorem retention_keeps_best_only:
  assumes "map_of fs name = Some (Dir cs)" and "distinct (map fst cs)"
    and "(map_of fs (best_dir name) = None \<and> ds = []) \<or> map_of fs (best_dir name) = Some (Dir ds)"
    and "\<forall>f\<in>fst ` set cs. (\<not> startswith f ''pipe'' \<longrightarrow> \<not> isdir ds f) \<and>
                           (f = pipe_name k \<longrightarrow> \<not> isfile ds f)"
  shows "best_dir name = name @ ''_best_pipe'' \<and>
         (\<exists>fs' ds'. retain_dataset fs name k = (fs', None) \<and> map_of fs' name = None \<and>
             map_of fs' (best_dir name) = Some (Dir ds') \<and>
             (\<forall>g. map_of ds' g =
                (if g \<in> fst ` set cs \<and>
                    ((\<not> startswith g ''pipe'' \<and> \<not> isfile ds g) \<or> g = pipe_name k)
                 then map_of cs g else map_of ds g)) \<and>
             (\<forall>p. p \<noteq> name \<and> p \<noteq> best_dir name \<longrightarrow> map_of fs' p = map_of fs p))"
  using retain_dataset_maps [OF assms] by (simp add: best_dir_def)

text \<open>
  A second experiment on the dataset \<open>A\<close>, whose best directory holds a vocabulary and the
  checkpoint \<^verbatim>\<open>pipe_2\<close> of an earlier one: the old vocabulary stays, the checkpoint is
  replaced.
\<close>

theorem retention_keeps_best_only_witness:
  "map_of example_fs_rerun ''A'' = Some (Dir example_work) \<and>
   distinct (map fst example_work) \<and>
   map_of example_fs_rerun (best_dir ''A'') = Some (Dir example_old_best) \<and>
   retain_dataset example_fs_rerun ''A'' (Some 2)
     = ([(''A_best_pipe'', Dir [(''vocab.dict'', File ''v0''),
                              (''pipe_2'', Dir [(''config.json'', File ''c2'')])])], None) \<and>
   best_dir ''A'' = ''A'' @ ''_best_pipe'' \<and>
   (\<exists>fs' ds'. retain_dataset example_fs_rerun ''A'' (Some 2) = (fs', None) \<and>
       map_of fs' ''A'' = None \<and> map_of fs' (best_dir ''A'') = Some (Dir ds') \<and>
       (\<forall>g. map_of ds' g =
          (if g \<in> fst ` set example_work \<and>
              ((\<not> startswith g ''pipe'' \<and> \<not> isfile example_old_best g) \<or> g = pipe_name (Some 2))
           then map_of example_work g else map_of example_old_best g)) \<and>
       (\<forall>p. p \<noteq> ''A'' \<and> p \<noteq> best_dir ''A'' \<longrightarrow> map_of fs' p = map_of example_fs_rerun p))"
proof -
  have h1: "map_of example_fs_rerun ''A'' = Some (Dir example_work)"
    by (simp add: example_fs_rerun_def)
  have h2: "distinct (map fst example_work)" by (simp add: example_work_def)
  have h3': "map_of example_fs_rerun (best_dir ''A'') = Some (Dir example_old_best)"
    by (simp add: example_fs_rerun_def best_dir_def)
  then have h3: "(map_of example_fs_rerun (best_dir ''A'') = None \<and> example_old_best = []) \<or>
                 map_of example_fs_rerun (best_dir ''A'') = Some (Dir example_old_best)" by simp
  have h4: "\<forall>f\<in>fst ` set example_work.
              (\<not> startswith f ''pipe'' \<longrightarrow> \<not> isdir example_old_best f) \<and>
              (f = pipe_name (Some 2) \<longrightarrow> \<not> isfile example_old_best f)"
    by (simp add: example_work_def example_old_best_def startswith_def isdir_def isfile_def
          pipe_name_def str_nat.simps)
  note c = retention_keeps_best_only [OF h1 h2 h3 h4]
  from c have c1: "best_dir ''A'' = ''A'' @ ''_best_pipe''" by (rule conjunct1)
  from c have c2: "\<exists>fs' ds'. retain_dataset example_fs_rerun ''A'' (Some 2) = (fs', None) \<and>
       map_of fs' ''A'' = None \<and> map_of fs' (best_dir ''A'') = Some (Dir ds') \<and>
       (\<forall>g. map_of ds' g =
          (if g \<in> fst ` set example_work \<and>
              ((\<not> startswith g ''pipe'' \<and> \<not> isfile example_old_best g) \<or> g = pipe_name (Some 2))
           then map_of example_work g else map_of example_old_best g)) \<and>
       (\<forall>p. p \<noteq> ''A'' \<and> p \<noteq> best_dir ''A'' \<longrightarrow> map_of fs' p = map_of example_fs_rerun p)"
    by (rule conjunct2)
  show ?thesis
    by (intro conjI) (rule h1, rule h2, rule h3', rule example_retention_rerun, rule c1, rule c2)
qed

text \<open>
  Claim C5 as it is worded fails: after retention for the dataset \<open>A\<close> there is no entry
  \<^verbatim>\<open>A_best\<close>; the best directory is \<^verbatim>\<open>A_best_pipe\<close>.
\<close>

theorem best_directory_name_counterexample:
  "retain_dataset example_fs ''A'' (Some 2) = (example_fs_done, None) \<and>
   map_of example_fs_done ''A_best'' = None \<and>
   isdir example_fs_done ''A_best_pipe''"
  by (simp add: example_retention) (simp add: example_fs_done_def isdir_def)

text \<open>
  Claim C6. Across the results that \<^verbatim>\<open>update_logger\<close> ingests, the best score stored for
  a dataset never decreases: over any stretch \<open>rs\<close> of the ingestion, starting at position
  \<open>i\<close>, an entry \<open>b\<close> either stays as it is or is replaced by the score and the number
  \<open>i + j + 1\<close> of a result of that dataset whose target score is strictly greater than the
  stored one. A result that only ties with the stored best score leaves the entry alone.
\<close>

theorem best_score_nondecreasing:
  assumes "update_loop i rs (m, dr) = Inr (m', dr')" and "map_of dr name = Some b"
  shows "\<exists>b'. map_of dr' name = Some b' \<and> best_score b \<le> best_score b' \<and>
           (b' \<noteq> b \<longrightarrow>
             (\<exists>j<length rs. data_path (pipe_conf (rs ! j)) = name \<and>
                 target_score (results (rs ! j)) (target_metric m') = Inr (best_score b') \<and>
                 best_score b < best_score b' \<and> best_ind b' = Some (i + j + 1)))"
proof (cases "save_best m")
  case False
  from update_loop_not_save [OF False assms(1)] assms(2) show ?thesis by simp
next
  case True
  from update_loop_entry [OF assms(1) True, of name b] assms(2)
  show ?thesis by blast
qed

text \<open>
  An entry with score 0.5 from the first result, then a tie and a score of 0.8: the tie
  changes nothing, the third result replaces the entry.
\<close>

theorem best_score_nondecreasing_witness:
  "update_loop 1 [result_A ''p1'' 0.5, result_A ''p2'' 0.8]
      (example_manager_acc, [(''A'', \<lparr>best_score = 0.5, best_ind = Some 1\<rparr>)])
     = Inr (write_log 2 (result_A ''p2'' 0.8) (write_log 1 (result_A ''p1'' 0.5) example_manager_acc),
            [(''A'', \<lparr>best_score = 0.8, best_ind = Some 3\<rparr>)]) \<and>
   map_of [(''A'', \<lparr>best_score = 0.5, best_ind = Some 1\<rparr>)] ''A''
     = Some \<lparr>best_score = 0.5, best_ind = Some 1\<rparr> \<and>
   (\<exists>b'. map_of [(''A'', \<lparr>best_score = 0.8, best_ind = Some 3\<rparr>)] ''A'' = Some b' \<and>
         best_score \<lparr>best_score = 0.5, best_ind = Some 1\<rparr> \<le> best_score b' \<and>
         (b' \<noteq> \<lparr>best_score = 0.5, best_ind = Some 1\<rparr> \<longrightarrow>
           (\<exists>j<length [result_A ''p1'' 0.5, result_A ''p2'' 0.8].
               data_path (pipe_conf ([result_A ''p1'' 0.5, result_A ''p2'' 0.8] ! j)) = ''A'' \<and>
               target_score (results ([result_A ''p1'' 0.5, result_A ''p2'' 0.8] ! j))
                 (target_metric (write_log 2 (result_A ''p2'' 0.8)
                    (write_log 1 (result_A ''p1'' 0.5) example_manager_acc)))
                 = Inr (best_score b') \<and>
               best_score \<lparr>best_score = 0.5, best_ind = Some 1\<rparr> < best_score b' \<and>
               best_ind b' = Some (1 + j + 1))))"
proof -
  have h1: "update_loop 1 [result_A ''p1'' 0.5, result_A ''p2'' 0.8]
      (example_manager_acc, [(''A'', \<lparr>best_score = 0.5, best_ind = Some 1\<rparr>)])
     = Inr (write_log 2 (result_A ''p2'' 0.8) (write_log 1 (result_A ''p1'' 0.5) example_manager_acc),
            [(''A'', \<lparr>best_score = 0.8, best_ind = Some 3\<rparr>)])"
    by (simp add: agg_defs)
  have h2: "map_of [(''A'', \<lparr>best_score = 0.5, best_ind = Some 1\<rparr>)] ''A''
     = Some \<lparr>best_score = 0.5, best_ind = Some 1\<rparr>"
    by simp
  from best_score_nondecreasing [OF h1 h2] h1 h2 show ?thesis by blast
qed

text \<open>
  Claim C7. When \<^verbatim>\<open>update_logger\<close> returns, the target metric is the one the user gave,
  or else the first metric of the training configuration of the first result, and it has
  had that value after every result ingested. With \<^verbatim>\<open>save_best\<close>, every result has a
  value under that name in its \<^verbatim>\<open>'test'\<close> split if it has one and in its \<^verbatim>\<open>'valid'\<close>
  split otherwise; the best score stored for its dataset is at least that value, and it is
  the initial \<open>-1\<close> or the value so read of some result of the same dataset: the stored
  best score is the maximum of \<open>-1\<close> and the values read. \<^verbatim>\<open>dataset_res\<close> has entries for
  the datasets of the results only. One iteration reads the value in the same way and
  stores it, with the number \<open>i + 1\<close>, if and only if it is strictly greater than the
  stored best score (\<open>-1\<close> for a dataset seen for the first time); the entries of the other
  datasets stay.
\<close>

theorem target_metric_and_split:
  "(update_logger self (r # rest) = Inr (self', dr) \<longrightarrow>
      (\<exists>tm. target_metric self' = Some tm \<and>
         (case target_metric self of
            Some t \<Rightarrow> tm = t
          | None \<Rightarrow> train_metrics (pipe_conf r) \<noteq> [] \<and> tm = hd (train_metrics (pipe_conf r))) \<and>
         (\<forall>n. 0 < n \<and> n \<le> length (r # rest) \<longrightarrow>
            (\<exists>s d. update_logger self (take n (r # rest)) = Inr (s, d) \<and> target_metric s = Some tm)) \<and>
         (save_best self \<longrightarrow>
            (\<forall>x\<in>set (r # rest).
               \<exists>b v. map_of dr (data_path (pipe_conf x)) = Some b \<and>
                 (case results x ''test'' of
                    Some ts \<Rightarrow> ts tm = Some v
                  | None \<Rightarrow> (\<exists>vs. results x ''valid'' = Some vs \<and> vs tm = Some v)) \<and>
                 v \<le> best_score b \<and>
                 (best_score b = - 1 \<or>
                  (\<exists>y\<in>set (r # rest). data_path (pipe_conf y) = data_path (pipe_conf x) \<and>
                      (case results y ''test'' of
                         Some ts \<Rightarrow> ts tm = Some (best_score b)
                       | None \<Rightarrow> (\<exists>vs. results y ''valid'' = Some vs \<and>
                                     vs tm = Some (best_score b))))))) \<and>
         (\<forall>name b. map_of dr name = Some b \<longrightarrow>
            save_best self \<and> (\<exists>y\<in>set (r # rest). data_path (pipe_conf y) = name)))) \<and>
   (ingest i x (m, d) = Inr (m', d') \<and> save_best m \<longrightarrow>
      (\<exists>t v. target_metric m' = Some t \<and>
         (case results x ''test'' of
            Some ts \<Rightarrow> ts t = Some v
          | None \<Rightarrow> (\<exists>vs. results x ''valid'' = Some vs \<and> vs t = Some v)) \<and>
         map_of d' (data_path (pipe_conf x))
           = Some (let b0 = (case map_of d (data_path (pipe_conf x)) of
                               None \<Rightarrow> init_best | Some b \<Rightarrow> b)
                   in if best_score b0 < v
                      then \<lparr>best_score = v, best_ind = Some (i + 1)\<rparr> else b0) \<and>
         (\<forall>n. n \<noteq> data_path (pipe_conf x) \<longrightarrow> map_of d' n = map_of d n)))"
proof (intro conjI impI)
  assume run: "update_logger self (r # rest) = Inr (self', dr)"
  let ?rs = "r # rest"
  from update_logger_target [OF run] obtain tm where
    tm: "target_metric self' = Some tm" and
    first: "case target_metric self of
              Some t \<Rightarrow> tm = t
            | None \<Rightarrow> train_metrics (pipe_conf r) \<noteq> [] \<and> tm = hd (train_metrics (pipe_conf r))"
    by (auto split: option.splits)
  have fixed: "\<forall>n. 0 < n \<and> n \<le> length ?rs \<longrightarrow>
              (\<exists>s d. update_logger self (take n ?rs) = Inr (s, d) \<and> target_metric s = Some tm)"
    using update_logger_prefix [OF run] tm by metis
  have stored: "save_best self \<longrightarrow>
            (\<forall>x\<in>set ?rs.
               \<exists>b v. map_of dr (data_path (pipe_conf x)) = Some b \<and>
                 (case results x ''test'' of
                    Some ts \<Rightarrow> ts tm = Some v
                  | None \<Rightarrow> (\<exists>vs. results x ''valid'' = Some vs \<and> vs tm = Some v)) \<and>
                 v \<le> best_score b \<and>
                 (best_score b = - 1 \<or>
                  (\<exists>y\<in>set ?rs. data_path (pipe_conf y) = data_path (pipe_conf x) \<and>
                      (case results y ''test'' of
                         Some ts \<Rightarrow> ts tm = Some (best_score b)
                       | None \<Rightarrow> (\<exists>vs. results y ''valid'' = Some vs \<and>
                                     vs tm = Some (best_score b))))))"
  proof (intro impI ballI)
    fix x assume sb: "save_best self" and x: "x \<in> set ?rs"
    show "\<exists>b v. map_of dr (data_path (pipe_conf x)) = Some b \<and>
                 (case results x ''test'' of
                    Some ts \<Rightarrow> ts tm = Some v
                  | None \<Rightarrow> (\<exists>vs. results x ''valid'' = Some vs \<and> vs tm = Some v)) \<and>
                 v \<le> best_score b \<and>
                 (best_score b = - 1 \<or>
                  (\<exists>y\<in>set ?rs. data_path (pipe_conf y) = data_path (pipe_conf x) \<and>
                      (case results y ''test'' of
                         Some ts \<Rightarrow> ts tm = Some (best_score b)
                       | None \<Rightarrow> (\<exists>vs. results y ''valid'' = Some vs \<and>
                                     vs tm = Some (best_score b)))))"
      by (rule update_logger_best_score [OF run sb tm x])
  qed
  have origin: "\<forall>name b. map_of dr name = Some b \<longrightarrow>
            save_best self \<and> (\<exists>y\<in>set ?rs. data_path (pipe_conf y) = name)"
  proof (intro allI impI)
    fix name b assume "map_of dr name = Some b"
    from update_logger_entry_origin [OF run this]
    show "save_best self \<and> (\<exists>y\<in>set ?rs. data_path (pipe_conf y) = name)" by auto
  qed
  from tm first fixed stored origin
  show "\<exists>tm. target_metric self' = Some tm \<and>
         (case target_metric self of
            Some t \<Rightarrow> tm = t
          | None \<Rightarrow> train_metrics (pipe_conf r) \<noteq> [] \<and> tm = hd (train_metrics (pipe_conf r))) \<and>
         (\<forall>n. 0 < n \<and> n \<le> length ?rs \<longrightarrow>
            (\<exists>s d. update_logger self (take n ?rs) = Inr (s, d) \<and> target_metric s = Some tm)) \<and>
         (save_best self \<longrightarrow>
            (\<forall>x\<in>set ?rs.
               \<exists>b v. map_of dr (data_path (pipe_conf x)) = Some b \<and>
                 (case results x ''test'' of
                    Some ts \<Rightarrow> ts tm = Some v
                  | None \<Rightarrow> (\<exists>vs. results x ''valid'' = Some vs \<and> vs tm = Some v)) \<and>
                 v \<le> best_score b \<and>
                 (best_score b = - 1 \<or>
                  (\<exists>y\<in>set ?rs. data_path (pipe_conf y) = data_path (pipe_conf x) \<and>
                      (case results y ''test'' of
                         Some ts \<Rightarrow> ts tm = Some (best_score b)
                       | None \<Rightarrow> (\<exists>vs. results y ''valid'' = Some vs \<and>
                                     vs tm = Some (best_score b))))))) \<and>
         (\<forall>name b. map_of dr name = Some b \<longrightarrow>
            save_best self \<and> (\<exists>y\<in>set ?rs. data_path (pipe_conf y) = name))"
    by (intro exI [of _ tm] conjI)
next
  assume "ingest i x (m, d) = Inr (m', d') \<and> save_best m"
  then have st: "ingest i x (m, d) = Inr (m', d')" and sb: "save_best m" by simp_all
  show "\<exists>t v. target_metric m' = Some t \<and>
         (case results x ''test'' of
            Some ts \<Rightarrow> ts t = Some v
          | None \<Rightarrow> (\<exists>vs. results x ''valid'' = Some vs \<and> vs t = Some v)) \<and>
         map_of d' (data_path (pipe_conf x))
           = Some (let b0 = (case map_of d (data_path (pipe_conf x)) of
                               None \<Rightarrow> init_best | Some b \<Rightarrow> b)
                   in if best_score b0 < v
                      then \<lparr>best_score = v, best_ind = Some (i + 1)\<rparr> else b0) \<and>
         (\<forall>n. n \<noteq> data_path (pipe_conf x) \<longrightarrow> map_of d' n = map_of d n)"
    by (rule ingest_entry [OF st sb])
qed

text \<open>
  A result with a test accuracy of 0.3 and a validation accuracy of 0.9, then a result
  with a validation accuracy of 0.5 only, with no target metric given: the target metric
  is \<open>acc\<close>, the first of the two declared; the first result is read from its test split
  and the second from its validation split, so the stored best score is 0.5, of result 2.
\<close>

theorem target_metric_and_split_witness:
  "\<exists>self'.
     update_logger example_manager (result_both # [result_valid_only])
       = Inr (self', [(''B'', \<lparr>best_score = 0.5, best_ind = Some 2\<rparr>)]) \<and>
     target_metric self' = Some ''acc'' \<and>
     (\<exists>tm. target_metric self' = Some tm \<and>
         (case target_metric example_manager of
            Some t \<Rightarrow> tm = t
          | None \<Rightarrow> train_metrics (pipe_conf result_both) \<noteq> [] \<and>
                     tm = hd (train_metrics (pipe_conf result_both))) \<and>
         (\<forall>n. 0 < n \<and> n \<le> length (result_both # [result_valid_only]) \<longrightarrow>
            (\<exists>s d. update_logger example_manager (take n (result_both # [result_valid_only]))
                      = Inr (s, d) \<and> target_metric s = Some tm)) \<and>
         (save_best example_manager \<longrightarrow>
            (\<forall>x\<in>set (result_both # [result_valid_only]).
               \<exists>b v. map_of [(''B'', \<lparr>best_score = 0.5, best_ind = Some 2\<rparr>)]
                        (data_path (pipe_conf x)) = Some b \<and>
                 (case results x ''test'' of
                    Some ts \<Rightarrow> ts tm = Some v
                  | None \<Rightarrow> (\<exists>vs. results x ''valid'' = Some vs \<and> vs tm = Some v)) \<and>
                 v \<le> best_score b \<and>
                 (best_score b = - 1 \<or>
                  (\<exists>y\<in>set (result_both # [result_valid_only]).
                      data_path (pipe_conf y) = data_path (pipe_conf x) \<and>
                      (case results y ''test'' of
                         Some ts \<Rightarrow> ts tm = Some (best_score b)
                       | None \<Rightarrow> (\<exists>vs. results y ''valid'' = Some vs \<and>
                                     vs tm = Some (best_score b))))))) \<and>
         (\<forall>name b. map_of [(''B'', \<lparr>best_score = 0.5, best_ind = Some 2\<rparr>)] name = Some b \<longrightarrow>
            save_best example_manager \<and>
            (\<exists>y\<in>set (result_both # [result_valid_only]). data_path (pipe_conf y) = name))) \<and>
     ingest 1 result_valid_only (example_manager_acc, [(''B'', \<lparr>best_score = 0.3, best_ind = Some 1\<rparr>)])
       = Inr (write_log 1 result_valid_only example_manager_acc,
              [(''B'', \<lparr>best_score = 0.5, best_ind = Some 2\<rparr>)]) \<and>
     save_best example_manager_acc \<and>
     (\<exists>t v. target_metric (write_log 1 result_valid_only example_manager_acc) = Some t \<and>
         (case results result_valid_only ''test'' of
            Some ts \<Rightarrow> ts t = Some v
          | None \<Rightarrow> (\<exists>vs. results result_valid_only ''valid'' = Some vs \<and> vs t = Some v)) \<and>
         map_of [(''B'', \<lparr>best_score = 0.5, best_ind = Some 2\<rparr>)] (data_path (pipe_conf result_valid_only))
           = Some (let b0 = (case map_of [(''B'', \<lparr>best_score = 0.3, best_ind = Some 1\<rparr>)]
                                    (data_path (pipe_conf result_valid_only)) of
                               None \<Rightarrow> init_best | Some b \<Rightarrow> b)
                   in if best_score b0 < v
                      then \<lparr>best_score = v, best_ind = Some (1 + 1)\<rparr> else b0) \<and>
         (\<forall>n. n \<noteq> data_path (pipe_conf result_valid_only) \<longrightarrow>
              map_of [(''B'', \<lparr>best_score = 0.5, best_ind = Some 2\<rparr>)] n
                = map_of [(''B'', \<lparr>best_score = 0.3, best_ind = Some 1\<rparr>)] n))"
proof -
  let ?dr = "[(''B'', \<lparr>best_score = 0.5, best_ind = Some 2\<rparr>)]"
  let ?d0 = "[(''B'', \<lparr>best_score = 0.3, best_ind = Some 1\<rparr>)]"
  let ?m1 = "write_log 1 result_valid_only example_manager_acc"
  have "\<exists>self'. update_logger example_manager (result_both # [result_valid_only]) = Inr (self', ?dr) \<and>
          target_metric self' = Some ''acc''"
    by (simp add: update_logger_def ingest_def fix_target_def write_log_def Let_def target_score_def
          upd_best_def init_entry_def init_best_def result_both_def result_valid_only_def conf_B_def
          example_manager_def new_logger_def)
  then obtain self' where
    h1: "update_logger example_manager (result_both # [result_valid_only]) = Inr (self', ?dr)" and
    t: "target_metric self' = Some ''acc''"
    by (elim exE conjE)
  have h2: "ingest 1 result_valid_only (example_manager_acc, ?d0) = Inr (?m1, ?dr)"
    by (simp add: ingest_def fix_target_def write_log_def Let_def target_score_def
          upd_best_def init_entry_def init_best_def result_valid_only_def conf_B_def
          example_manager_def example_manager_acc_def new_logger_def)
  have h3: "save_best example_manager_acc"
    by (simp add: example_manager_acc_def example_manager_def)
  note c = target_metric_and_split [where self = example_manager and r = result_both
      and rest = "[result_valid_only]" and self' = self' and dr = ?dr
      and i = 1 and x = result_valid_only and m = example_manager_acc and d = ?d0
      and m' = ?m1 and d' = ?dr]
  note c1 = c [THEN conjunct1, THEN mp, OF h1]
  note c2 = c [THEN conjunct2, THEN mp, OF conjI [OF h2 h3]]
  show ?thesis
    by (intro exI [of _ self'] conjI) (rule h1, rule t, rule c1, rule h2, rule h3, rule c2)
qed

text \<open>
  Claim C8, for a manager that plans. \<^verbatim>\<open>prepare_multiprocess\<close> raises \<^verbatim>\<open>ValueError\<close>
  whenever \<^verbatim>\<open>use_all_gpus\<close> is set and \<^verbatim>\<open>use_multi_gpus\<close> is a non-empty list. The
  constructor calls it if \<^verbatim>\<open>multiprocessing\<close> is set; then no manager is constructed,
  nothing is scheduled and the checkpoint directory is left as it was.
\<close>

theorem both_gpu_modes_rejected:
  "(use_all_gpus self \<and> truthy (use_multi_gpus self) \<longrightarrow>
      prepare_multiprocess ev self = Inl ValueError) \<and>
   (arg_multiprocessing a \<and> arg_use_all_gpus a \<and> truthy (arg_use_multi_gpus a) \<longrightarrow>
      init ev a = Inl ValueError \<and> new_and_run ev a confs order fs = (fs, Inl ValueError))"
  by (simp add: prepare_both_modes init_both_modes new_and_run_def)

text \<open>
  Both modes with \<^verbatim>\<open>multiprocessing=True\<close>.
\<close>

theorem both_gpu_modes_rejected_witness:
  "arg_multiprocessing both_modes_args \<and> arg_use_all_gpus both_modes_args \<and>
   truthy (arg_use_multi_gpus both_modes_args) \<and>
   init example_env both_modes_args = Inl ValueError \<and>
   new_and_run example_env both_modes_args example_confs [0, 1, 2] example_fs
     = (example_fs, Inl ValueError)"
proof -
  have h: "arg_multiprocessing both_modes_args \<and> arg_use_all_gpus both_modes_args \<and>
           truthy (arg_use_multi_gpus both_modes_args)"
    by (simp add: both_modes_args_def example_args_def truthy_def)
  note c = both_gpu_modes_rejected [where self = example_manager and a = both_modes_args
      and ev = example_env and confs = example_confs and order = "[0, 1, 2]" and fs = example_fs]
  from c [THEN conjunct2] h
  have "init example_env both_modes_args = Inl ValueError \<and>
        new_and_run example_env both_modes_args example_confs [0, 1, 2] example_fs
          = (example_fs, Inl ValueError)"
    by (rule mp)
  with h show ?thesis by (simp only: simp_thms)
qed

text \<open>
  Claim C8 as it is worded fails with \<^verbatim>\<open>multiprocessing=False\<close>: the constructor skips
  \<^verbatim>\<open>prepare_multiprocess\<close>, returns a manager with both GPU modes set, and \<^verbatim>\<open>run\<close>
  schedules the three pipelines on a pool without GPUs.
\<close>

theorem both_gpu_modes_unplanned_counterexample:
  "init example_env (both_modes_args\<lparr>arg_multiprocessing := False\<rparr>) = Inr both_modes_unplanned \<and>
   pipes_results example_env both_modes_unplanned example_confs [0, 1, 2]
     = Inr [result_A ''p0'' 0.5, result_A ''p1'' 0.8, result_A ''p2'' 0.3]"
proof -
  have a: "init example_env (both_modes_args\<lparr>arg_multiprocessing := False\<rparr>) = Inr both_modes_unplanned"
    by (simp add: init_def Let_def both_modes_args_def example_args_def both_modes_unplanned_def
          example_manager_def new_logger_def)
  have b: "pipes_results example_env both_modes_unplanned example_confs [0, 1, 2]
     = Inr [result_A ''p0'' 0.5, result_A ''p1'' 0.8, result_A ''p2'' 0.3]"
    by (simp add: pipes_results_def pool_outputs_def pool_size_def imap_unordered_def
          cpu_configs_def train_pipe_def run_pipe_def example_env_def example_scores_def
          example_confs_def example_manager_def conf_A_def result_A_def new_logger_def
          both_modes_unplanned_def)
  from a b show ?thesis by (rule conjI)
qed

text \<open>
  Claim C9. Retention for a dataset whose working directory is gone and whose best
  directory exists raises \<^verbatim>\<open>FileNotFoundError\<close> at \<^verbatim>\<open>os.listdir(source)\<close> and leaves the
  checkpoint directory, the best directory in it included, exactly as it was; the loop over
  the datasets stops there.
\<close>

theorem retention_twice_fails_cleanly:
  assumes "map_of fs name = None" and "map_of fs (best_dir name) = Some (Dir ds)"
  shows "retain_dataset fs name k = (fs, Some FileNotFoundError) \<and>
         retain fs ((name, b) # rest) = (fs, Some FileNotFoundError)"
  using retain_dataset_finalized [OF assms] retain_finalized [OF assms] by simp

text \<open>
  Retention for the dataset \<open>A\<close>, and retention once more on what it left.
\<close>

theorem retention_twice_fails_cleanly_witness:
  "retain_dataset example_fs ''A'' (Some 2) = (example_fs_done, None) \<and>
   map_of example_fs_done ''A'' = None \<and>
   map_of example_fs_done (best_dir ''A'')
     = Some (Dir [(''vocab.dict'', File ''v1''), (''pipe_2'', Dir [(''config.json'', File ''c2'')])]) \<and>
   retain_dataset example_fs_done ''A'' (Some 2) = (example_fs_done, Some FileNotFoundError) \<and>
   retain example_fs_done [(''A'', \<lparr>best_score = 0.8, best_ind = Some 2\<rparr>)]
     = (example_fs_done, Some FileNotFoundError)"
proof -
  have h1: "map_of example_fs_done ''A'' = None" by (simp add: example_fs_done_def)
  have h2: "map_of example_fs_done (best_dir ''A'')
     = Some (Dir [(''vocab.dict'', File ''v1''), (''pipe_2'', Dir [(''config.json'', File ''c2'')])])"
    by (simp add: example_fs_done_def best_dir_def)
  note c = retention_twice_fails_cleanly [OF h1 h2, of "Some 2" "\<lparr>best_score = 0.8, best_ind = Some 2\<rparr>" "[]"]
  show ?thesis
    by (intro conjI) (rule example_retention, rule h1, rule h2, rule c [THEN conjunct1],
        rule c [THEN conjunct2])
qed

text \<open>
  Claim C10. If \<^verbatim>\<open>save_best\<close> is set and every target score of the results of a dataset
  is at most \<open>-1\<close>, the entry of the dataset is still \<^verbatim>\<open>dict(best_score=-1, best_ind=None)\<close>
  when \<^verbatim>\<open>update_logger\<close> returns, although a result of that dataset was ingested.
  Retention then compares the names of the checkpoints with \<^verbatim>\<open>pipe_None\<close>: from a working
  directory without an entry of that name, and with no best directory yet, it keeps no
  checkpoint at all.
\<close>

theorem no_best_below_sentinel:
  assumes "update_logger self rs = Inr (self', dr)" and "save_best self"
    and "x \<in> set rs" and "data_path (pipe_conf x) = name"
    and "\<forall>j<length rs. data_path (pipe_conf (rs ! j)) = name \<longrightarrow>
           (\<forall>v. target_score (results (rs ! j)) (target_metric self') = Inr v \<longrightarrow> v \<le> - 1)"
  shows "\<exists>b. map_of dr name = Some b \<and> best_score b = - 1 \<and> best_ind b = None \<and>
             pipe_name (best_ind b) = ''pipe_None'' \<and>
             (\<forall>fs cs. map_of fs name = Some (Dir cs) \<and> distinct (map fst cs) \<and>
                  map_of fs (best_dir name) = None \<and> ''pipe_None'' \<notin> fst ` set cs \<longrightarrow>
                (\<exists>fs' ds'. retain_dataset fs name (best_ind b) = (fs', None) \<and>
                    map_of fs' name = None \<and> map_of fs' (best_dir name) = Some (Dir ds') \<and>
                    (\<forall>g. startswith g ''pipe'' \<longrightarrow> map_of ds' g = None)))"
proof -
  from update_logger_no_best [OF assms] have e: "map_of dr name = Some init_best" .
  have pn: "pipe_name None = ''pipe_None''" by (simp add: pipe_name_def)
  have ret: "\<exists>fs' ds'. retain_dataset fs name None = (fs', None) \<and>
                    map_of fs' name = None \<and> map_of fs' (best_dir name) = Some (Dir ds') \<and>
                    (\<forall>g. startswith g ''pipe'' \<longrightarrow> map_of ds' g = None)"
    if h: "map_of fs name = Some (Dir cs) \<and> distinct (map fst cs) \<and>
           map_of fs (best_dir name) = None \<and> ''pipe_None'' \<notin> fst ` set cs" for fs cs
  proof -
    have dest: "(map_of fs (best_dir name) = None \<and> ([]::dir) = []) \<or>
                map_of fs (best_dir name) = Some (Dir [])" using h by simp
    have cl: "\<forall>f\<in>fst ` set cs. (\<not> startswith f ''pipe'' \<longrightarrow> \<not> isdir [] f) \<and>
                                  (f = pipe_name None \<longrightarrow> \<not> isfile [] f)"
      by (simp add: isdir_def isfile_def)
    from h have s: "map_of fs name = Some (Dir cs)" and d: "distinct (map fst cs)" by simp_all
    from retain_dataset_maps [OF s d dest cl] obtain fs' ds' where
      r: "retain_dataset fs name None = (fs', None)" "map_of fs' name = None"
         "map_of fs' (best_dir name) = Some (Dir ds')" and
      m: "\<And>g. map_of ds' g =
              (if g \<in> fst ` set cs \<and> ((\<not> startswith g ''pipe'' \<and> \<not> isfile [] g) \<or> g = pipe_name None)
               then map_of cs g else map_of [] g)"
      by blast
    have "map_of ds' g = None" if "startswith g ''pipe''" for g
      using m [of g] that h pn by auto
    with r show ?thesis by blast
  qed
  have f: "best_score init_best = - 1" "best_ind init_best = None" by (simp_all add: init_best_def)
  have ret': "\<forall>fs cs. map_of fs name = Some (Dir cs) \<and> distinct (map fst cs) \<and>
                  map_of fs (best_dir name) = None \<and> ''pipe_None'' \<notin> fst ` set cs \<longrightarrow>
                (\<exists>fs' ds'. retain_dataset fs name (best_ind init_best) = (fs', None) \<and>
                    map_of fs' name = None \<and> map_of fs' (best_dir name) = Some (Dir ds') \<and>
                    (\<forall>g. startswith g ''pipe'' \<longrightarrow> map_of ds' g = None))"
    unfolding f using ret by blast
  have pn': "pipe_name (best_ind init_best) = ''pipe_None''" unfolding f by (rule pn)
  from e f pn' ret' show ?thesis by blast
qed

text \<open>
  Two results of the dataset \<open>A\<close> with the scores \<open>-2\<close> and \<open>-1\<close>.
\<close>

theorem no_best_below_sentinel_witness:
  "\<exists>self' dr.
     update_logger example_manager [result_A ''p0'' (- 2), result_A ''p1'' (- 1)] = Inr (self', dr) \<and>
     save_best example_manager \<and>
     result_A ''p0'' (- 2) \<in> set [result_A ''p0'' (- 2), result_A ''p1'' (- 1)] \<and>
     data_path (pipe_conf (result_A ''p0'' (- 2))) = ''A'' \<and>
     (\<exists>b. map_of dr ''A'' = Some b \<and> best_score b = - 1 \<and> best_ind b = None \<and>
          pipe_name (best_ind b) = ''pipe_None'' \<and>
          (\<forall>fs cs. map_of fs ''A'' = Some (Dir cs) \<and> distinct (map fst cs) \<and>
               map_of fs (best_dir ''A'') = None \<and> ''pipe_None'' \<notin> fst ` set cs \<longrightarrow>
             (\<exists>fs' ds'. retain_dataset fs ''A'' (best_ind b) = (fs', None) \<and>
                 map_of fs' ''A'' = None \<and> map_of fs' (best_dir ''A'') = Some (Dir ds') \<and>
                 (\<forall>g. startswith g ''pipe'' \<longrightarrow> map_of ds' g = None))))"
proof -
  let ?rs = "[result_A ''p0'' (- 2), result_A ''p1'' (- 1)]"
  have "\<exists>self' dr. update_logger example_manager ?rs = Inr (self', dr) \<and>
          target_metric self' = Some ''acc''"
    by (simp add: agg_defs)
  then obtain self' dr where
    h1: "update_logger example_manager ?rs = Inr (self', dr)" and
    t: "target_metric self' = Some ''acc''" by blast
  have h2: "save_best example_manager" by (simp add: example_manager_def)
  have h3: "result_A ''p0'' (- 2) \<in> set ?rs" by simp
  have h4: "data_path (pipe_conf (result_A ''p0'' (- 2))) = ''A''"
    by (simp add: result_A_def conf_A_def)
  have h5: "\<forall>j<length ?rs. data_path (pipe_conf (?rs ! j)) = ''A'' \<longrightarrow>
           (\<forall>v. target_score (results (?rs ! j)) (target_metric self') = Inr v \<longrightarrow> v \<le> - 1)"
  proof (intro allI impI)
    fix j v
    assume j: "j < length ?rs"
      and v: "target_score (results (?rs ! j)) (target_metric self') = Inr v"
    from j have "j = 0 \<or> j = 1" by auto
    then show "v \<le> - 1"
      using v t by (auto simp: target_score_def result_A_def)
  qed
  from no_best_below_sentinel [OF h1 h2 h3 h4 h5] h1 h2 h3 h4 show ?thesis by blast
qed

end
